theory Spec2Isabelle
  imports Complex_Main "HOL-Library.Log_Nat"
begin

section \<open>Conventions of the embedding\<close>

text \<open>
  The interview engine is TypeScript. A number is a real, and the counters are natural
  numbers; numbers are finite and within the range of a double, so \<^verbatim>\<open>NaN\<close> and the
  infinities have no counterpart. In the weighted score, the final score and the final
  average the arithmetic on doubles is written out: every product, sum, difference and
  quotient is rounded to the nearest double. The remaining arithmetic is kept exact: the
  time penalty and the fallback score are multiples of one half, which a double holds as
  they are. Strings are lists of code units below 256, and the session object is a record
  that every operation takes and returns. The wall-clock readings
  (\<^verbatim>\<open>Date.now()\<close>, the time prefix of a log line) are inputs or left out; a log
  line is kept as a structured entry carrying the values the source interpolates.
\<close>

subsection \<open>Strings\<close>

definition toLowerChar :: "char \<Rightarrow> char" where
  "toLowerChar c =
     (let n = (of_char c :: nat)
      in if (65 \<le> n \<and> n \<le> 90) \<or> (192 \<le> n \<and> n \<le> 222 \<and> n \<noteq> 215)
         then char_of (n + 32) else c)"

definition toLowerCase :: "string \<Rightarrow> string" where
  "toLowerCase s = map toLowerChar s"

definition isWhiteSpace :: "char \<Rightarrow> bool" where
  "isWhiteSpace c = ((of_char c :: nat) \<in> {9, 10, 11, 12, 13, 32, 160})"

definition trim :: "string \<Rightarrow> string" where
  "trim s = rev (dropWhile isWhiteSpace (rev (dropWhile isWhiteSpace s)))"

text \<open>\<^verbatim>\<open>String.prototype.includes\<close>: does the needle occur at some position.\<close>

fun includes_str :: "string \<Rightarrow> string \<Rightarrow> bool" where
  "includes_str [] needle = (needle = [])"
| "includes_str (c # cs) needle =
     (take (length needle) (c # cs) = needle \<or> includes_str cs needle)"

subsection \<open>Numbers\<close>

text \<open>
  The double nearest to a real: binary64, round to nearest, ties to even. \<open>ilog2 x\<close> is
  \<open>\<lfloor>log\<^sub>2 x\<rfloor>\<close> for a positive \<open>x\<close>; below \<open>2\<^sup>-\<^sup>1\<^sup>0\<^sup>2\<^sup>2\<close> the exponent stays at
  \<open>-1022\<close> (the subnormal numbers). Overflow to infinity is not modelled.
\<close>

definition ilog2 :: "real \<Rightarrow> int" where
  "ilog2 x =
     (if 1 \<le> x then int (floorlog 2 (nat \<lfloor>x\<rfloor>)) - 1
      else - int (floorlog 2 (nat (\<lceil>1 / x\<rceil> - 1))))"

definition roundEven :: "real \<Rightarrow> int" where
  "roundEven q =
     (let f = \<lfloor>q\<rfloor>; d = q - of_int f
      in if d < 1 / 2 then f else if 1 / 2 < d then f + 1
         else if even f then f else f + 1)"

definition double :: "real \<Rightarrow> real" where
  "double x =
     (if x = 0 then 0
      else let e = max (ilog2 \<bar>x\<bar>) (- 1022);
               u = 2 powi (e - 52);
               n = roundEven (\<bar>x\<bar> / u)
           in if x < 0 then - (of_int n * u) else of_int n * u)"

text \<open>The operators \<^verbatim>\<open>*\<close>, \<^verbatim>\<open>+\<close>, \<^verbatim>\<open>-\<close> and \<^verbatim>\<open>/\<close> on doubles.\<close>

definition times64 :: "real \<Rightarrow> real \<Rightarrow> real" where
  "times64 x y = double (x * y)"

definition plus64 :: "real \<Rightarrow> real \<Rightarrow> real" where
  "plus64 x y = double (x + y)"

definition minus64 :: "real \<Rightarrow> real \<Rightarrow> real" where
  "minus64 x y = double (x - y)"

definition divide64 :: "real \<Rightarrow> real \<Rightarrow> real" where
  "divide64 x y = double (x / y)"

text \<open>
  The decimal that \<^verbatim>\<open>x.toFixed(d)\<close> prints: the sign is split off, and the magnitude is
  rounded to the nearest multiple of \<open>10\<^sup>-\<^sup>d\<close>, the larger one on a tie. \<^verbatim>\<open>Number\<close>
  reads it back as the double nearest to it.
\<close>

definition toFixed :: "nat \<Rightarrow> real \<Rightarrow> real" where
  "toFixed d x =
     (if x < 0 then - (of_int \<lfloor>- x * 10 ^ d + 1 / 2\<rfloor> / 10 ^ d)
      else of_int \<lfloor>x * 10 ^ d + 1 / 2\<rfloor> / 10 ^ d)"

text \<open>Decimal digits of a counter, as a template literal prints it.\<close>

fun digits :: "nat \<Rightarrow> nat \<Rightarrow> string" where
  "digits 0 n = []"
| "digits (Suc fuel) n =
     (if n < 10 then [char_of (48 + n)]
      else digits fuel (n div 10) @ [char_of (48 + n mod 10)])"

definition showNat :: "nat \<Rightarrow> string" where
  "showNat n = digits (Suc n) n"

section \<open>types.ts\<close>

datatype Difficulty = Easy | Medium | Hard

datatype EvaluationMode = LLM | FALLBACK_RULE_BASED

datatype Status =
  IDLE | ANALYZING | GENERATING | INTERVIEWING | EVALUATING | TERMINATED | COMPLETED

datatype GapType = PRIMARY | SECONDARY

record Skill =
  skillName :: string
  level :: string

record ResumeData =
  candidateName :: string
  skills :: "Skill list"
  experienceYears :: real
  primaryRole :: string

record JobDescriptionData =
  roleTitle :: string
  primarySkills :: "string list"
  secondarySkills :: "string list"
  complexityLevel :: string
  description :: string

record Question =
  qid :: string
  qtext :: string
  targetSkill :: string
  difficulty :: Difficulty
  expectedKeywords :: "string list"

record EvaluationCriteria =
  accuracy :: real
  clarity :: real
  depth :: real
  relevance :: real

text \<open>What an evaluator hands back: the criteria, the feedback and the fallback flag.\<close>

record RawEvaluation = EvaluationCriteria +
  feedback :: string
  isFallback :: bool

record AnswerEvaluation = RawEvaluation +
  totalScore :: real
  timeTakenSeconds :: real
  timePenalty :: real
  finalScore :: real
  skillGapPenalty :: real

record InterviewTurn =
  question :: Question
  answer :: string
  evaluation :: AnswerEvaluation
  difficultyBefore :: Difficulty
  difficultyAfter :: Difficulty
  timestamp :: nat
  criticalFailure :: bool

record SkillGap =
  skill :: string
  gapType :: GapType

record Config =
  maxQuestions :: nat
  timeLimitPerQuestion :: real
  passingScoreThreshold :: real
  maxViolations :: nat

section \<open>services/policy.ts\<close>

definition ACCURACY_weight :: real where "ACCURACY_weight = 0.40"
definition DEPTH_weight :: real where "DEPTH_weight = 0.30"
definition CLARITY_weight :: real where "CLARITY_weight = 0.15"
definition RELEVANCE_weight :: real where "RELEVANCE_weight = 0.15"

definition STRONG_SCORE :: real where "STRONG_SCORE = 8.0"
definition WEAK_SCORE :: real where "WEAK_SCORE = 4.5"
definition CRITICAL_FAIL_SCORE :: real where "CRITICAL_FAIL_SCORE = 2.0"
definition PASSING_THRESHOLD :: real where "PASSING_THRESHOLD = 6.0"

definition KEYWORD_MATCH_VALUE :: real where "KEYWORD_MATCH_VALUE = 2.0"
definition LENGTH_THRESHOLD_CHARS :: nat where "LENGTH_THRESHOLD_CHARS = 50"
definition LENGTH_BONUS :: real where "LENGTH_BONUS = 1.0"
definition BASE_SCORE :: real where "BASE_SCORE = 4.0"
definition MAX_SCORE :: real where "MAX_SCORE = 8.5"

definition LIMIT_SEC :: real where "LIMIT_SEC = 60"
definition PENALTY_START_SEC :: real where "PENALTY_START_SEC = 60"
definition PENALTY_STEP_SEC :: real where "PENALTY_STEP_SEC = 5"
definition PENALTY_PER_STEP :: real where "PENALTY_PER_STEP = 0.5"
definition MAX_VIOLATIONS_ALLOWED :: nat where "MAX_VIOLATIONS_ALLOWED = 2"
definition MIN_ANSWER_TIME_MS :: real where "MIN_ANSWER_TIME_MS = 2000"

definition INITIAL :: "(string \<times> Difficulty) list" where
  "INITIAL = [(''Senior'', Medium), (''Mid'', Easy), (''Junior'', Easy)]"

definition CRITICAL_GAP_MATCH_THRESHOLD :: real where "CRITICAL_GAP_MATCH_THRESHOLD = 0.6"
definition CAP_LEVEL :: Difficulty where "CAP_LEVEL = Medium"

definition PRIMARY_MISSING :: real where "PRIMARY_MISSING = 1.5"
definition SECONDARY_MISSING :: real where "SECONDARY_MISSING = 0.5"

definition MAX_QUESTIONS :: nat where "MAX_QUESTIONS = 5"
definition STRIKE_LIMIT :: nat where "STRIKE_LIMIT = 3"
definition CRITICAL_FAIL_STRIKES :: nat where "CRITICAL_FAIL_STRIKES = 2"

definition EMPTY_ANSWER_SCORE :: real where "EMPTY_ANSWER_SCORE = 0"
definition IRRELEVANT_ANSWER_SCORE :: real where "IRRELEVANT_ANSWER_SCORE = 0"
definition SPAM_ANSWER_SCORE :: real where "SPAM_ANSWER_SCORE = 0"

section \<open>services/engine.ts: LogicCore\<close>

text \<open>
  \<^verbatim>\<open>calculateScore\<close>. The criteria and the weights are the doubles nearest to the
  numbers written (a criterion as \<^verbatim>\<open>JSON.parse\<close> reads it, a weight as the literal of
  the policy), the four products are added from left to right, and the sum printed to
  two decimals is read back by \<^verbatim>\<open>Number\<close>.
\<close>

definition calculateScore :: "'a EvaluationCriteria_scheme \<Rightarrow> real" where
  "calculateScore criteria =
     (let score =
            plus64
              (plus64
                 (plus64 (times64 (double (accuracy criteria)) (double ACCURACY_weight))
                         (times64 (double (depth criteria)) (double DEPTH_weight)))
                 (times64 (double (clarity criteria)) (double CLARITY_weight)))
              (times64 (double (relevance criteria)) (double RELEVANCE_weight))
      in double (toFixed 2 score))"

text \<open>
  The pair is \<^verbatim>\<open>{ penalty, isViolation }\<close>. The penalty printed to one decimal is a
  multiple of one half, which \<^verbatim>\<open>Number\<close> reads back as it is.
\<close>

definition calculateTimeLogic :: "real \<Rightarrow> real \<times> bool" where
  "calculateTimeLogic seconds =
     (if seconds \<le> PENALTY_START_SEC then (0, False)
      else let overtime = seconds - PENALTY_START_SEC;
               steps = \<lceil>overtime / PENALTY_STEP_SEC\<rceil>;
               penalty = of_int steps * PENALTY_PER_STEP
           in (toFixed 1 penalty, True))"

text \<open>The pair is \<^verbatim>\<open>{ penalty, type }\<close>.\<close>

definition checkSkillGap :: "string \<Rightarrow> SkillGap list \<Rightarrow> real \<times> GapType option" where
  "checkSkillGap target gaps =
     (case find (\<lambda>g. toLowerCase (skill g) = toLowerCase target) gaps of
        None \<Rightarrow> (0, None)
      | Some gap \<Rightarrow>
          if gapType gap = PRIMARY then (PRIMARY_MISSING, Some PRIMARY)
          else (SECONDARY_MISSING, Some SECONDARY))"

text \<open>\<^verbatim>\<open>levels.indexOf\<close> on \<^verbatim>\<open>[Easy, Medium, Hard]\<close>.\<close>

fun levelIndex :: "Difficulty \<Rightarrow> nat" where
  "levelIndex Easy = 0"
| "levelIndex Medium = 1"
| "levelIndex Hard = 2"

definition nextDifficulty :: "Difficulty \<Rightarrow> real \<Rightarrow> Difficulty option \<Rightarrow> Difficulty" where
  "nextDifficulty current score ceil =
     (let next =
        (if score \<ge> STRONG_SCORE then
           (if current = Easy then Medium
            else if current = Medium then Hard
            else current)
         else if score \<le> WEAK_SCORE then
           (if current = Hard then Medium
            else if current = Medium then Easy
            else current)
         else current)
      in case ceil of
           None \<Rightarrow> next
         | Some cap \<Rightarrow> if levelIndex next > levelIndex cap then cap else next)"

section \<open>services/gemini.ts: the fallback evaluator\<close>

text \<open>
  \<^verbatim>\<open>FallbackRegistry.evaluate\<close>. The \<^verbatim>\<open>forEach\<close> over the expected keywords carries
  the hit counter and the list of missing keywords.
\<close>

definition FallbackRegistry_evaluate :: "Question \<Rightarrow> string \<Rightarrow> RawEvaluation" where
  "FallbackRegistry_evaluate q ans =
     (let lowerAnswer = toLowerCase ans;
          (keywordHits, missingKeywords) =
            fold (\<lambda>kw (hits, missing).
                    if includes_str lowerAnswer (toLowerCase kw) then (hits + 1, missing)
                    else (hits, missing @ [kw]))
                 (expectedKeywords q) (0::nat, []);
          isShort = (length ans < LENGTH_THRESHOLD_CHARS);
          heuristicScore0 = BASE_SCORE;
          heuristicScore1 = heuristicScore0 + real keywordHits * KEYWORD_MATCH_VALUE;
          heuristicScore2 =
            (if \<not> isShort then heuristicScore1 + LENGTH_BONUS else heuristicScore1);
          heuristicScore = min heuristicScore2 MAX_SCORE;
          feedback0 = ''[Deterministic Evaluation] Score calculated based on length and keyword coverage. '';
          feedback1 =
            (if keywordHits > 0
             then feedback0 @ ''Identified '' @ showNat keywordHits @ '' relevant concepts. ''
             else feedback0 @ ''Answer lacked specific expected technical terminology. '');
          feedback2 = (if isShort then feedback1 @ ''Response was brief.'' else feedback1)
      in \<lparr> accuracy = min 10 heuristicScore,
           clarity = 6,
           depth = (if isShort then 3 else 6),
           relevance = (if keywordHits > 0 then 8 else 4),
           feedback = feedback2,
           isFallback = True \<rparr>)"

text \<open>
  \<^verbatim>\<open>evaluateAnswer\<close>: the call to the generative service is the parameter \<open>ai\<close>;
  \<open>None\<close> stands for every way the \<^verbatim>\<open>try\<close> block can throw (no API key, a failed
  request, an empty or unparsable response).
\<close>

type_synonym ExternalEvaluator = "Question \<Rightarrow> string \<Rightarrow> RawEvaluation option"

definition evaluateAnswer :: "ExternalEvaluator \<Rightarrow> Question \<Rightarrow> string \<Rightarrow> RawEvaluation" where
  "evaluateAnswer ai q ans =
     (case ai q ans of
        Some result \<Rightarrow> result\<lparr>isFallback := False\<rparr>
      | None \<Rightarrow> FallbackRegistry_evaluate q ans)"

section \<open>services/engine.ts: InterviewEngine\<close>

datatype LogEntry =
    SYSTEM_EngineOnline
  | STATE_Analyzing
  | POLICY_InitialDifficulty string Difficulty
  | ANALYSIS_Found nat nat
  | POLICY_DifficultyCapped real Difficulty
  | STATE_InitializationComplete
  | STATE_SessionInitialized
  | QUESTION_Presented nat string Difficulty
  | EVENT_AnswerSubmitted real
  | EDGE_CASE_Empty real
  | EDGE_CASE_Spam real
  | WARN_FallbackMode
  | POLICY_TimeViolation nat real
  | POLICY_SkillGapPenalty "GapType option" string real
  | SCORE_Line real real real real
  | ADAPT_Blocked Difficulty
  | ADAPT_Transition Difficulty Difficulty
  | RISK_CriticalFailure real nat
  | RISK_WeakAnswer real
  | RECOVERY_Stabilized
  | FINAL_ScoreFinalized real
  | TERM_Completed
  | TERM_Triggered string

record InterviewState =
  status :: Status
  currentDifficulty :: Difficulty
  evaluationMode :: EvaluationMode
  activeQuestion :: "Question option"
  turns :: "InterviewTurn list"
  scoreHistory :: "real list"
  consecutiveWeakAnswers :: nat
  timeViolations :: nat
  detectedSkillGaps :: "SkillGap list"
  difficultyCeiling :: "Difficulty option"
  terminationReason :: "string option"
  logs :: "LogEntry list"
  config :: Config

definition getInitialState :: InterviewState where
  "getInitialState =
     \<lparr> status = IDLE,
       currentDifficulty = Easy,
       evaluationMode = LLM,
       activeQuestion = None,
       turns = [],
       scoreHistory = [],
       consecutiveWeakAnswers = 0,
       timeViolations = 0,
       detectedSkillGaps = [],
       difficultyCeiling = None,
       terminationReason = None,
       logs = [SYSTEM_EngineOnline],
       config = \<lparr> maxQuestions = MAX_QUESTIONS,
                  timeLimitPerQuestion = LIMIT_SEC,
                  passingScoreThreshold = PASSING_THRESHOLD,
                  maxViolations = MAX_VIOLATIONS_ALLOWED \<rparr> \<rparr>"

text \<open>\<^verbatim>\<open>log\<close>: newest entry first, the oldest dropped beyond 200 entries.\<close>

definition log :: "LogEntry \<Rightarrow> InterviewState \<Rightarrow> InterviewState" where
  "log msg s =
     (let l = msg # logs s
      in s\<lparr>logs := (if length l > 200 then butlast l else l)\<rparr>)"

text \<open>
  An operation returns the state it leaves and, in order, the state each call of
  \<^verbatim>\<open>notify\<close> showed to the subscribers.
\<close>

type_synonym Outcome = "InterviewState \<times> InterviewState list"

definition startAnalysis :: "InterviewState \<Rightarrow> Outcome" where
  "startAnalysis s =
     (let s1 = log STATE_Analyzing (s\<lparr>status := ANALYZING\<rparr>)
      in (s1, [s1]))"

definition normSkill :: "string \<Rightarrow> string" where
  "normSkill x = trim (toLowerCase x)"

definition initializeSession :: "JobDescriptionData \<Rightarrow> ResumeData \<Rightarrow> InterviewState \<Rightarrow> Outcome" where
  "initializeSession jd resume s =
     (let startDiff = (case map_of INITIAL (complexityLevel jd) of
                         Some d \<Rightarrow> d | None \<Rightarrow> Easy);
          s1 = log (POLICY_InitialDifficulty (complexityLevel jd) startDiff)
                   (s\<lparr>currentDifficulty := startDiff\<rparr>);
          resumeSkills = set (map (\<lambda>k. normSkill (skillName k)) (skills resume));
          primaryGaps = map (\<lambda>k. \<lparr>skill = k, gapType = PRIMARY\<rparr>)
                            (filter (\<lambda>k. normSkill k \<notin> resumeSkills) (primarySkills jd));
          primaryMissing = length primaryGaps;
          secondaryGaps = map (\<lambda>k. \<lparr>skill = k, gapType = SECONDARY\<rparr>)
                              (filter (\<lambda>k. normSkill k \<notin> resumeSkills) (secondarySkills jd));
          gaps = primaryGaps @ secondaryGaps;
          s2 = log (ANALYSIS_Found (length gaps) primaryMissing)
                   (s1\<lparr>detectedSkillGaps := gaps\<rparr>);
          primaryCount = length (primarySkills jd);
          primaryMatchRate =
            (if primaryCount > 0
             then (real primaryCount - real primaryMissing) / real primaryCount else 1);
          s3 = (if primaryMatchRate < CRITICAL_GAP_MATCH_THRESHOLD
                then log (POLICY_DifficultyCapped primaryMatchRate CAP_LEVEL)
                         (s2\<lparr>difficultyCeiling := Some CAP_LEVEL\<rparr>)
                else s2);
          s4 = log STATE_InitializationComplete (s3\<lparr>status := IDLE\<rparr>)
      in (s4, [s4]))"

definition setGenerating :: "InterviewState \<Rightarrow> Outcome" where
  "setGenerating s = (let s1 = s\<lparr>status := GENERATING\<rparr> in (s1, [s1]))"

definition presentQuestion :: "Question \<Rightarrow> InterviewState \<Rightarrow> Outcome" where
  "presentQuestion q s =
     (let s1 = s\<lparr>activeQuestion := Some q\<rparr>;
          s2 = s1\<lparr>status := INTERVIEWING\<rparr>;
          s3 = log (QUESTION_Presented (length (turns s2) + 1) (targetSkill q) (difficulty q)) s2
      in (s3, [s3]))"

definition startInterview :: "Question \<Rightarrow> InterviewState \<Rightarrow> Outcome" where
  "startInterview firstQuestion s =
     (if status s \<noteq> IDLE \<and> status s \<noteq> GENERATING then (s, [])
      else presentQuestion firstQuestion (log STATE_SessionInitialized s))"

text \<open>
  \<^verbatim>\<open>calculateFinalAverage\<close>: the scores are added from left to right, starting from 0, and
  the sum is divided by their number, both in doubles; the result is the decimal that
  \<^verbatim>\<open>toFixed(2)\<close> prints, \<^verbatim>\<open>0.00\<close> where there is no score.
\<close>

definition calculateFinalAverage :: "InterviewState \<Rightarrow> real" where
  "calculateFinalAverage s =
     (if length (scoreHistory s) = 0 then 0
      else toFixed 2 (divide64 (foldl plus64 0 (scoreHistory s))
                               (real (length (scoreHistory s)))))"

definition terminate :: "string \<Rightarrow> InterviewState \<Rightarrow> Outcome" where
  "terminate reason s =
     (let s1 = s\<lparr>status := TERMINATED\<rparr>;
          s2 = s1\<lparr>terminationReason := Some reason\<rparr>;
          s3 = log (FINAL_ScoreFinalized (calculateFinalAverage s2)) s2;
          s4 = log (TERM_Triggered reason) s3
      in (s4, [s4]))"

text \<open>\<^verbatim>\<open>checkTermination\<close>: the returned boolean, then the state and the notifications.\<close>

definition checkTermination :: "InterviewState \<Rightarrow> bool \<times> Outcome" where
  "checkTermination s =
     (if timeViolations s > MAX_VIOLATIONS_ALLOWED then
        (True, terminate (''Time Management Failure: '' @ showNat (timeViolations s)
                          @ '' violations exceeded limit of '' @ showNat MAX_VIOLATIONS_ALLOWED
                          @ ''.'') s)
      else if consecutiveWeakAnswers s \<ge> STRIKE_LIMIT then
        (True, terminate (''Performance Threshold Reached: ''
                          @ showNat (consecutiveWeakAnswers s) @ '' consecutive strikes.'') s)
      else if length (turns s) \<ge> MAX_QUESTIONS then
        (let s1 = s\<lparr>status := COMPLETED\<rparr>;
             s2 = log (FINAL_ScoreFinalized (calculateFinalAverage s1)) s1;
             s3 = log TERM_Completed s2
         in (True, (s3, [s3])))
      else (False, (s, [])))"

definition reset :: "InterviewState \<Rightarrow> Outcome" where
  "reset s = (getInitialState, [getInitialState])"

subsection \<open>submitAnswer\<close>

text \<open>
  \<open>NoActiveQuestion\<close> is the thrown \<^verbatim>\<open>Error("Cannot submit answer: No active question.")\<close>;
  \<open>NotInterviewing\<close> is the warning and plain \<^verbatim>\<open>return\<close> of a submission outside
  \<^verbatim>\<open>INTERVIEWING\<close>. Neither changes the state nor notifies.
\<close>

datatype SubmitError = NoActiveQuestion | NotInterviewing

text \<open>
  A submission that ran to its end: the state it leaves, the states shown to the
  subscribers in order, and the calls made to \<^verbatim>\<open>evaluateAnswer\<close>.
\<close>

record Submission =
  finalState :: InterviewState
  notified :: "InterviewState list"
  evaluatorCalls :: "(Question \<times> string) list"

text \<open>
  Step 2, the deterministic filters. \<open>Some\<close> is \<^verbatim>\<open>isSpamOrEmpty = true\<close> together with
  the \<^verbatim>\<open>rawEvaluation\<close> assigned there.
\<close>

definition preEvaluation :: "string \<Rightarrow> real \<Rightarrow> InterviewState \<Rightarrow> RawEvaluation option \<times> InterviewState" where
  "preEvaluation answerText t s =
     (if answerText = [] \<or> length (trim answerText) = 0 then
        (let zero = EMPTY_ANSWER_SCORE
         in (Some \<lparr> accuracy = zero, clarity = zero, depth = zero, relevance = zero,
                    feedback = ''Automatic Failure: No answer provided.'',
                    isFallback = True \<rparr>,
             log (EDGE_CASE_Empty zero) s))
      else if t * 1000 < MIN_ANSWER_TIME_MS \<and> length answerText > 5 then
        (let zero = SPAM_ANSWER_SCORE
         in (Some \<lparr> accuracy = zero, clarity = zero, depth = zero, relevance = zero,
                    feedback = ''Automatic Failure: Response time impossibly fast (Spam detection).'',
                    isFallback = True \<rparr>,
             log (EDGE_CASE_Spam t) s))
      else (None, s))"

text \<open>Step 3, the evaluator call, made only if no filter fired.\<close>

definition apiEvaluation ::
  "ExternalEvaluator \<Rightarrow> Question \<Rightarrow> string \<Rightarrow> RawEvaluation option \<Rightarrow> InterviewState
   \<Rightarrow> RawEvaluation \<times> (Question \<times> string) list \<times> InterviewState" where
  "apiEvaluation ai q answerText pre s =
     (case pre of
        Some rawEvaluation \<Rightarrow> (rawEvaluation, [], s)
      | None \<Rightarrow>
          (let result = evaluateAnswer ai q answerText;
               s1 = (if isFallback result \<and> evaluationMode s \<noteq> FALLBACK_RULE_BASED
                     then log WARN_FallbackMode (s\<lparr>evaluationMode := FALLBACK_RULE_BASED\<rparr>)
                     else s)
           in (result, [(q, answerText)], s1)))"

text \<open>Step 4 D, the violation counter.\<close>

definition recordTimeViolation :: "real \<Rightarrow> bool \<Rightarrow> InterviewState \<Rightarrow> InterviewState" where
  "recordTimeViolation penalty isViolation s =
     (if isViolation then
        (let s1 = s\<lparr>timeViolations := timeViolations s + 1\<rparr>
         in log (POLICY_TimeViolation (timeViolations s1) penalty) s1)
      else s)"

text \<open>Step 4 G, the log lines of the difficulty adaptation.\<close>

definition logAdaptation :: "Difficulty \<Rightarrow> InterviewState \<Rightarrow> InterviewState" where
  "logAdaptation nextDiff s =
     (if nextDiff \<noteq> currentDifficulty s then
        (if difficultyCeiling s \<noteq> None \<and> Some nextDiff = difficultyCeiling s
            \<and> Some (currentDifficulty s) = difficultyCeiling s
         then log (ADAPT_Blocked nextDiff) s
         else log (ADAPT_Transition (currentDifficulty s) nextDiff) s)
      else s)"

text \<open>Step 4 H, the strike system.\<close>

definition strikeSystem :: "real \<Rightarrow> InterviewState \<Rightarrow> InterviewState" where
  "strikeSystem final s =
     (let (strikes, s1) =
            (if final \<le> CRITICAL_FAIL_SCORE then
               (CRITICAL_FAIL_STRIKES,
                log (RISK_CriticalFailure CRITICAL_FAIL_SCORE CRITICAL_FAIL_STRIKES) s)
             else if final \<le> WEAK_SCORE then
               (1, log (RISK_WeakAnswer WEAK_SCORE) s)
             else
               (0, if consecutiveWeakAnswers s > 0
                   then (log RECOVERY_Stabilized s)\<lparr>consecutiveWeakAnswers := 0\<rparr>
                   else s))
      in s1\<lparr>consecutiveWeakAnswers := consecutiveWeakAnswers s1 + strikes\<rparr>)"

text \<open>Step 4 I, the turn record.\<close>

definition makeTurn ::
  "Question \<Rightarrow> string \<Rightarrow> RawEvaluation \<Rightarrow> real \<Rightarrow> real \<Rightarrow> real \<Rightarrow> real \<Rightarrow> real
   \<Rightarrow> Difficulty \<Rightarrow> Difficulty \<Rightarrow> nat \<Rightarrow> InterviewTurn" where
  "makeTurn q answerText rawEvaluation baseScore t tPenalty final gapPenalty diffBefore nextDiff now =
     \<lparr> question = q,
       answer = answerText,
       evaluation =
         \<lparr> accuracy = accuracy rawEvaluation,
           clarity = clarity rawEvaluation,
           depth = depth rawEvaluation,
           relevance = relevance rawEvaluation,
           feedback = (if feedback rawEvaluation = [] then ''Processed by Policy Engine''
                       else feedback rawEvaluation),
           isFallback = isFallback rawEvaluation,
           totalScore = baseScore,
           timeTakenSeconds = t,
           timePenalty = tPenalty,
           finalScore = final,
           skillGapPenalty = gapPenalty \<rparr>,
       difficultyBefore = diffBefore,
       difficultyAfter = nextDiff,
       timestamp = now,
       criticalFailure = (final \<le> CRITICAL_FAIL_SCORE) \<rparr>"

text \<open>
  \<^verbatim>\<open>submitAnswer\<close>, with the evaluator \<open>ai\<close> and the clock reading \<open>now\<close> of
  \<^verbatim>\<open>Date.now()\<close> as inputs. Its only suspension point is the \<^verbatim>\<open>await\<close> of the
  evaluator; the operation is taken as one step, the engine serving one request to
  completion before the next. The result lists the two notifications it makes: the frozen
  state right after the guards, and the state it leaves.
\<close>

definition submitAnswer ::
  "ExternalEvaluator \<Rightarrow> nat \<Rightarrow> string \<Rightarrow> real \<Rightarrow> InterviewState \<Rightarrow> SubmitError + Submission" where
  "submitAnswer ai now answerText t s =
     (case activeQuestion s of
        None \<Rightarrow> Inl NoActiveQuestion
      | Some q \<Rightarrow>
          if status s \<noteq> INTERVIEWING then Inl NotInterviewing
          else Inr
            (let s1 = log (EVENT_AnswerSubmitted t) (s\<lparr>status := EVALUATING\<rparr>);
                 (pre, s2) = preEvaluation answerText t s1;
                 (rawEvaluation, calls, s3) = apiEvaluation ai q answerText pre s2;
                 baseScore = calculateScore rawEvaluation;
                 (tPenalty, isViolation) = calculateTimeLogic t;
                 s4 = recordTimeViolation tPenalty isViolation s3;
                 (gapPenalty, gType) = checkSkillGap (targetSkill q) (detectedSkillGaps s4);
                 s5 = (if gapPenalty > 0
                       then log (POLICY_SkillGapPenalty gType (targetSkill q) gapPenalty) s4
                       else s4);
                 final = max 0 (minus64 (minus64 baseScore tPenalty) gapPenalty);
                 s6 = log (SCORE_Line baseScore tPenalty gapPenalty (toFixed 2 final)) s5;
                 nextDiff = nextDifficulty (currentDifficulty s6) final (difficultyCeiling s6);
                 s7 = logAdaptation nextDiff s6;
                 s8 = strikeSystem final s7;
                 turn = makeTurn q answerText rawEvaluation baseScore t tPenalty final
                                 gapPenalty (currentDifficulty s8) nextDiff now;
                 s9 = s8\<lparr> turns := turns s8 @ [turn],
                          scoreHistory := scoreHistory s8 @ [final],
                          currentDifficulty := nextDiff,
                          activeQuestion := None \<rparr>;
                 (terminated, s10, shown) = checkTermination s9
             in if \<not> terminated then
                  (let s11 = s10\<lparr>status := GENERATING\<rparr>
                   in \<lparr> finalState = s11, notified = [s1, s11], evaluatorCalls = calls \<rparr>)
                else \<lparr> finalState = s10, notified = s1 # shown, evaluatorCalls = calls \<rparr>))"

subsection \<open>Sessions\<close>

text \<open>The public operations as commands, and a session as a list of them.\<close>

datatype Op =
    StartAnalysis
  | InitializeSession JobDescriptionData ResumeData
  | SetGenerating
  | StartInterview Question
  | PresentQuestion Question
  | SubmitAnswer ExternalEvaluator nat string real
  | Reset

fun step :: "Op \<Rightarrow> InterviewState \<Rightarrow> Outcome" where
  "step StartAnalysis s = startAnalysis s"
| "step (InitializeSession jd resume) s = initializeSession jd resume s"
| "step SetGenerating s = setGenerating s"
| "step (StartInterview q) s = startInterview q s"
| "step (PresentQuestion q) s = presentQuestion q s"
| "step (SubmitAnswer ai now answerText t) s =
     (case submitAnswer ai now answerText t s of
        Inl e \<Rightarrow> (s, [])
      | Inr r \<Rightarrow> (finalState r, notified r))"
| "step Reset s = reset s"

text \<open>A session from a state: the state reached and everything the subscribers saw.\<close>

fun run :: "Op list \<Rightarrow> InterviewState \<Rightarrow> Outcome" where
  "run [] s = (s, [])"
| "run (c # cs) s =
     (let (s1, seen1) = step c s;
          (s2, seen2) = run cs s1
      in (s2, seen1 @ seen2))"

section \<open>The engine object and its subscribers\<close>

text \<open>
  \<^verbatim>\<open>getState\<close> returns \<^verbatim>\<open>this.state\<close> and \<^verbatim>\<open>notify\<close> calls every subscriber with
  \<^verbatim>\<open>this.state\<close>: both hand out the session object itself. To say what a subscriber can do
  with what it is handed, objects live in a store and the engine holds the address of its
  state. A subscriber is a callback on the store that is given that address. The function
  returned by \<^verbatim>\<open>subscribe\<close>, which removes the callback again, is left out.
\<close>

type_synonym ref = nat

type_synonym Store = "ref \<Rightarrow> InterviewState option"

type_synonym Subscriber = "ref \<Rightarrow> Store \<Rightarrow> Store"

record Runtime =
  store :: Store
  stateRef :: ref
  subscribers :: "Subscriber list"

text \<open>A fresh engine: the initial state at address 0, nobody subscribed.\<close>

definition newEngine :: Runtime where
  "newEngine = \<lparr> store = Map.empty(0 \<mapsto> getInitialState), stateRef = 0, subscribers = [] \<rparr>"

definition getState :: "Runtime \<Rightarrow> ref" where
  "getState rt = stateRef rt"

definition subscribe :: "Subscriber \<Rightarrow> Runtime \<Rightarrow> Runtime" where
  "subscribe cb rt = rt\<lparr>subscribers := subscribers rt @ [cb]\<rparr>"

definition notify :: "Runtime \<Rightarrow> Runtime" where
  "notify rt = rt\<lparr>store := fold (\<lambda>cb h. cb (stateRef rt) h) (subscribers rt) (store rt)\<rparr>"

text \<open>\<^verbatim>\<open>setGenerating\<close> on the object: the field is assigned in place, then the subscribers run.\<close>

definition setGenerating_inPlace :: "Runtime \<Rightarrow> Runtime" where
  "setGenerating_inPlace rt =
     (case store rt (stateRef rt) of
        None \<Rightarrow> rt
      | Some st \<Rightarrow> notify (rt\<lparr>store := (store rt)(stateRef rt \<mapsto> st\<lparr>status := GENERATING\<rparr>)\<rparr>))"

text \<open>What the engine reads through \<^verbatim>\<open>this.state\<close>.\<close>

definition currentState :: "Runtime \<Rightarrow> InterviewState option" where
  "currentState rt = store rt (getState rt)"

text \<open>
  Two subscribers. \<open>handleStateUpdate\<close> is the one of \<^verbatim>\<open>App.tsx\<close>,
  \<^verbatim>\<open>s => setEngineState({ ...s })\<close>: it copies what it is handed into the component's own
  state, here the address \<open>ui\<close>. \<open>overwriteStatus\<close> assigns the \<^verbatim>\<open>status\<close> field of
  what it is handed.
\<close>

definition handleStateUpdate :: "ref \<Rightarrow> Subscriber" where
  "handleStateUpdate ui r h = h(ui := h r)"

definition overwriteStatus :: "Status \<Rightarrow> Subscriber" where
  "overwriteStatus v r h = (case h r of None \<Rightarrow> h | Some st \<Rightarrow> h(r \<mapsto> st\<lparr>status := v\<rparr>))"

section \<open>Auxiliary definitions\<close>

text \<open>The state without its audit log.\<close>

definition core :: "InterviewState \<Rightarrow> InterviewState" where
  "core s = s\<lparr>logs := []\<rparr>"

text \<open>The two termination reasons, as functions of the counter they cite.\<close>

definition violationReason :: "nat \<Rightarrow> string" where
  "violationReason n = ''Time Management Failure: '' @ showNat n
      @ '' violations exceeded limit of '' @ showNat MAX_VIOLATIONS_ALLOWED @ ''.''"

definition strikeReason :: "nat \<Rightarrow> string" where
  "strikeReason n = ''Performance Threshold Reached: '' @ showNat n @ '' consecutive strikes.''"

text \<open>
  Everything an observer can see of a session from the initial state: the state it ends
  in and the states shown to the subscribers.
\<close>

definition visibleStates :: "Op list \<Rightarrow> InterviewState list" where
  "visibleStates ops = fst (run ops getInitialState) # snd (run ops getInitialState)"

text \<open>The two invariants carried through a session.\<close>

definition questionInPlay :: "InterviewState \<Rightarrow> bool" where
  "questionInPlay s = (status s = INTERVIEWING \<longrightarrow> activeQuestion s \<noteq> None)"

definition underCeiling :: "InterviewState \<Rightarrow> bool" where
  "underCeiling s =
     ((difficultyCeiling s = None \<or> difficultyCeiling s = Some CAP_LEVEL)
      \<and> (difficultyCeiling s = Some CAP_LEVEL \<longrightarrow>
            levelIndex (currentDifficulty s) \<le> levelIndex CAP_LEVEL))"

section \<open>Sample data\<close>

text \<open>
  A question of the fallback pool, three answers, evaluators that are unavailable or
  return fixed criteria, a role and a profile matching one primary skill in three, and
  a few sessions.
\<close>

definition sampleQuestion :: Question where
  "sampleQuestion =
     \<lparr> qid = ''q-1'', qtext = ''Describe the CSS Box Model.'', targetSkill = ''CSS'',
       difficulty = Easy, expectedKeywords = [''margin'', ''border'', ''padding'', ''content''] \<rparr>"

definition noService :: ExternalEvaluator where
  "noService q ans = None"

definition sessionAtQuestion :: InterviewState where
  "sessionAtQuestion = fst (presentQuestion sampleQuestion getInitialState)"

definition strongService :: ExternalEvaluator where
  "strongService q ans =
     Some \<lparr> accuracy = 9, clarity = 9, depth = 9, relevance = 9,
            feedback = ''Correct and thorough.'', isFallback = False \<rparr>"

definition weakService :: ExternalEvaluator where
  "weakService q ans =
     Some \<lparr> accuracy = 4, clarity = 4, depth = 4, relevance = 4,
            feedback = ''Partly correct.'', isFallback = False \<rparr>"

definition generousService :: ExternalEvaluator where
  "generousService q ans =
     Some \<lparr> accuracy = 12, clarity = 12, depth = 12, relevance = 12,
            feedback = ''Beyond the scale.'', isFallback = False \<rparr>"

definition plainAnswer :: string where
  "plainAnswer = ''The box has content, padding, border and margin.''"

definition blankAnswer :: string where
  "blankAnswer = ''   ''"

definition mixedCaseAnswer :: string where
  "mixedCaseAnswer = ''The Margin and the BORDER.''"

definition seniorRole :: JobDescriptionData where
  "seniorRole =
     \<lparr> roleTitle = ''Senior Frontend Engineer'',
       primarySkills = [''React'', ''TypeScript'', ''Node.js''],
       secondarySkills = [''AWS'', ''Testing''],
       complexityLevel = ''Senior'',
       description = ''Critical: React, TypeScript, Node.js.'' \<rparr>"

definition thinProfile :: ResumeData where
  "thinProfile =
     \<lparr> candidateName = ''Alex Chen'',
       skills = [\<lparr>skillName = '' react '', level = ''Mid''\<rparr>],
       experienceYears = 3,
       primaryRole = ''Frontend Developer'' \<rparr>"

text \<open>The first question answered in time, the service being down.\<close>

definition firstSubmission :: "Op list" where
  "firstSubmission =
     [PresentQuestion sampleQuestion, SubmitAnswer noService 1 plainAnswer 30]"

text \<open>Two strong answers, each a second over time; the third question is up.\<close>

definition twoOverruns :: "Op list" where
  "twoOverruns =
     [PresentQuestion sampleQuestion, SubmitAnswer strongService 1 plainAnswer 61,
      PresentQuestion sampleQuestion, SubmitAnswer strongService 2 plainAnswer 61,
      PresentQuestion sampleQuestion]"

text \<open>Two strong answers over time, then two weak ones in time; the fifth question is up.\<close>

definition fourTurns :: "Op list" where
  "fourTurns =
     [PresentQuestion sampleQuestion, SubmitAnswer strongService 1 plainAnswer 61,
      PresentQuestion sampleQuestion, SubmitAnswer strongService 2 plainAnswer 61,
      PresentQuestion sampleQuestion, SubmitAnswer weakService 3 plainAnswer 30,
      PresentQuestion sampleQuestion, SubmitAnswer weakService 4 plainAnswer 30,
      PresentQuestion sampleQuestion]"

text \<open>A capped session: analysis, initialisation, start, and one strong answer.\<close>

definition cappedSession :: "Op list" where
  "cappedSession =
     [StartAnalysis, InitializeSession seniorRole thinProfile, SetGenerating,
      StartInterview sampleQuestion, SubmitAnswer strongService 1 plainAnswer 30]"

subsection \<open>The score in exact arithmetic\<close>

text \<open>
  The weighted sum of the four criteria over the decimal weights, with no rounding of a
  product or a sum, and that sum rounded to two decimals: the base score as the
  specification words it, to be compared with \<^verbatim>\<open>calculateScore\<close>.
\<close>

definition weightedSum :: "'a EvaluationCriteria_scheme \<Rightarrow> real" where
  "weightedSum c = accuracy c * 0.40 + depth c * 0.30 + clarity c * 0.15 + relevance c * 0.15"

definition roundedWeightedSum :: "'a EvaluationCriteria_scheme \<Rightarrow> real" where
  "roundedWeightedSum c = toFixed 2 (weightedSum c)"

text \<open>The sum that \<^verbatim>\<open>calculateScore\<close> prints: the same four products, each rounded to a double,
  added from left to right with every sum rounded to a double.\<close>

definition weightedSum64 :: "'a EvaluationCriteria_scheme \<Rightarrow> real" where
  "weightedSum64 c =
     plus64
       (plus64
          (plus64 (times64 (double (accuracy c)) (double 0.40))
                  (times64 (double (depth c)) (double 0.30)))
          (times64 (double (clarity c)) (double 0.15)))
       (times64 (double (relevance c)) (double 0.15))"

section \<open>Auxiliary facts\<close>

named_theorems policy \<open>the constants of INTERVIEW_POLICY\<close>

lemmas policy_constants [policy] =
  ACCURACY_weight_def DEPTH_weight_def CLARITY_weight_def RELEVANCE_weight_def
  STRONG_SCORE_def WEAK_SCORE_def CRITICAL_FAIL_SCORE_def PASSING_THRESHOLD_def
  KEYWORD_MATCH_VALUE_def LENGTH_THRESHOLD_CHARS_def LENGTH_BONUS_def BASE_SCORE_def
  MAX_SCORE_def LIMIT_SEC_def PENALTY_START_SEC_def PENALTY_STEP_SEC_def
  PENALTY_PER_STEP_def MAX_VIOLATIONS_ALLOWED_def MIN_ANSWER_TIME_MS_def
  CRITICAL_GAP_MATCH_THRESHOLD_def CAP_LEVEL_def PRIMARY_MISSING_def
  SECONDARY_MISSING_def MAX_QUESTIONS_def STRIKE_LIMIT_def CRITICAL_FAIL_STRIKES_def
  EMPTY_ANSWER_SCORE_def IRRELEVANT_ANSWER_SCORE_def SPAM_ANSWER_SCORE_def

lemma log_fields [simp]:
  "status (log m s) = status s"
  "currentDifficulty (log m s) = currentDifficulty s"
  "evaluationMode (log m s) = evaluationMode s"
  "activeQuestion (log m s) = activeQuestion s"
  "turns (log m s) = turns s"
  "scoreHistory (log m s) = scoreHistory s"
  "consecutiveWeakAnswers (log m s) = consecutiveWeakAnswers s"
  "timeViolations (log m s) = timeViolations s"
  "detectedSkillGaps (log m s) = detectedSkillGaps s"
  "difficultyCeiling (log m s) = difficultyCeiling s"
  "terminationReason (log m s) = terminationReason s"
  "config (log m s) = config s"
  by (simp_all add: log_def Let_def)

lemma core_fields [simp]:
  "status (core s) = status s"
  "currentDifficulty (core s) = currentDifficulty s"
  "evaluationMode (core s) = evaluationMode s"
  "activeQuestion (core s) = activeQuestion s"
  "turns (core s) = turns s"
  "scoreHistory (core s) = scoreHistory s"
  "consecutiveWeakAnswers (core s) = consecutiveWeakAnswers s"
  "timeViolations (core s) = timeViolations s"
  "detectedSkillGaps (core s) = detectedSkillGaps s"
  "difficultyCeiling (core s) = difficultyCeiling s"
  "terminationReason (core s) = terminationReason s"
  "config (core s) = config s"
  by (simp_all add: core_def)

lemma core_log [simp]: "core (log m s) = core s"
  by (simp add: core_def log_def Let_def)

lemma core_preEvaluation: "core (snd (preEvaluation a t s)) = core s"
  by (simp add: preEvaluation_def Let_def)

lemma core_apiEvaluation:
  "core (snd (snd (apiEvaluation ai q a pre s))) =
     (core s)\<lparr>evaluationMode := evaluationMode (snd (snd (apiEvaluation ai q a pre s)))\<rparr>"
  by (simp add: apiEvaluation_def Let_def core_def split: option.split)

lemma core_recordTimeViolation:
  "core (recordTimeViolation p v s) =
     (core s)\<lparr>timeViolations := timeViolations s + (if v then 1 else 0)\<rparr>"
  by (simp add: recordTimeViolation_def Let_def core_def log_def)

lemma core_logAdaptation: "core (logAdaptation d s) = core s"
  by (simp add: logAdaptation_def)

lemma core_strikeSystem:
  "core (strikeSystem f s) =
     (core s)\<lparr>consecutiveWeakAnswers :=
        (if f \<le> CRITICAL_FAIL_SCORE then consecutiveWeakAnswers s + CRITICAL_FAIL_STRIKES
         else if f \<le> WEAK_SCORE then consecutiveWeakAnswers s + 1
         else 0)\<rparr>"
  by (simp add: strikeSystem_def Let_def core_def log_def)

lemma let_elim:
  assumes "(let x = a in f x) = y"
  obtains x where "a = x" and "f x = y"
  using assms by simp

lemma let_pair_elim:
  assumes "(let (x1, x2) = a in f x1 x2) = y"
  obtains x1 x2 where "a = (x1, x2)" and "f x1 x2 = y"
  using assms by (cases a) simp

lemma let_triple_elim:
  assumes "(let (x1, x2, x3) = a in f x1 x2 x3) = y"
  obtains x1 x2 x3 where "a = (x1, x2, x3)" and "f x1 x2 x3 = y"
  using assms by (cases a) auto

lemma submitAnswer_guards:
  assumes "submitAnswer ai now a t s = Inr r"
  shows "\<exists>q. activeQuestion s = Some q \<and> status s = INTERVIEWING"
proof (cases "activeQuestion s")
  case None
  with assms show ?thesis unfolding submitAnswer_def by simp
next
  case (Some q)
  show ?thesis
  proof (cases "status s = INTERVIEWING")
    case True
    with Some show ?thesis by simp
  next
    case False
    with assms Some show ?thesis unfolding submitAnswer_def by simp
  qed
qed

lemma submitAnswer_chain:
  assumes sub: "submitAnswer ai now a t s = Inr r"
  obtains q s1 pre s2 rawEvaluation calls s3 baseScore tPenalty isViolation s4
          gapPenalty gType s5 final s6 nextDiff s7 s8 turn s9 terminated s10 shown
  where "activeQuestion s = Some q" and "status s = INTERVIEWING"
    and "log (EVENT_AnswerSubmitted t) (s\<lparr>status := EVALUATING\<rparr>) = s1"
    and "preEvaluation a t s1 = (pre, s2)"
    and "apiEvaluation ai q a pre s2 = (rawEvaluation, calls, s3)"
    and "calculateScore rawEvaluation = baseScore"
    and "calculateTimeLogic t = (tPenalty, isViolation)"
    and "recordTimeViolation tPenalty isViolation s3 = s4"
    and "checkSkillGap (targetSkill q) (detectedSkillGaps s4) = (gapPenalty, gType)"
    and "(if gapPenalty > 0
          then log (POLICY_SkillGapPenalty gType (targetSkill q) gapPenalty) s4 else s4) = s5"
    and "max 0 (minus64 (minus64 baseScore tPenalty) gapPenalty) = final"
    and "log (SCORE_Line baseScore tPenalty gapPenalty (toFixed 2 final)) s5 = s6"
    and "nextDifficulty (currentDifficulty s6) final (difficultyCeiling s6) = nextDiff"
    and "logAdaptation nextDiff s6 = s7"
    and "strikeSystem final s7 = s8"
    and "makeTurn q a rawEvaluation baseScore t tPenalty final gapPenalty
           (currentDifficulty s8) nextDiff now = turn"
    and "s8\<lparr> turns := turns s8 @ [turn], scoreHistory := scoreHistory s8 @ [final],
              currentDifficulty := nextDiff, activeQuestion := None \<rparr> = s9"
    and "checkTermination s9 = (terminated, s10, shown)"
    and "r = (if \<not> terminated
              then \<lparr> finalState = s10\<lparr>status := GENERATING\<rparr>,
                     notified = [s1, s10\<lparr>status := GENERATING\<rparr>],
                     evaluatorCalls = calls \<rparr>
              else \<lparr> finalState = s10, notified = s1 # shown, evaluatorCalls = calls \<rparr>)"
proof -
  from submitAnswer_guards [OF sub] obtain q
    where q: "activeQuestion s = Some q" and st: "status s = INTERVIEWING"
    by blast
  from sub show thesis
    unfolding submitAnswer_def q option.case
    apply (simp only: st simp_thms if_False sum.inject)
    apply (erule let_elim)
    apply (erule let_pair_elim)
    apply (erule let_triple_elim)
    apply (erule let_elim)
    apply (erule let_pair_elim)
    apply (erule let_elim)
    apply (erule let_pair_elim)
    apply (erule let_elim)
    apply (erule let_elim)
    apply (erule let_elim)
    apply (erule let_elim)
    apply (erule let_elim)
    apply (erule let_elim)
    apply (erule let_elim)
    apply (erule let_elim)
    apply (erule let_triple_elim)
    apply (rule that [OF q st]; (assumption | simp add: Let_def split: if_splits))
    apply auto
    done
qed


lemma preEvaluation_fst_state: "fst (preEvaluation a t s) = fst (preEvaluation a t s')"
  by (simp add: preEvaluation_def Let_def)

lemma apiEvaluation_fst_state:
  "fst (apiEvaluation ai q a pre s) = fst (apiEvaluation ai q a pre s')"
  "fst (snd (apiEvaluation ai q a pre s)) = fst (snd (apiEvaluation ai q a pre s'))"
  by (simp_all add: apiEvaluation_def Let_def split: option.split)

lemma core_terminate:
  "core (fst (terminate reason s)) = (core s)\<lparr>status := TERMINATED, terminationReason := Some reason\<rparr>"
  "snd (terminate reason s) = [fst (terminate reason s)]"
  by (simp_all add: terminate_def Let_def core_def log_def)

lemma checkTermination_effect:
  assumes "checkTermination s = (terminated, s', shown)"
  shows "terminated = (timeViolations s > MAX_VIOLATIONS_ALLOWED
            \<or> consecutiveWeakAnswers s \<ge> STRIKE_LIMIT \<or> length (turns s) \<ge> MAX_QUESTIONS)"
    and "core s' = (core s)\<lparr>
            status := (if timeViolations s > MAX_VIOLATIONS_ALLOWED then TERMINATED
                       else if consecutiveWeakAnswers s \<ge> STRIKE_LIMIT then TERMINATED
                       else if length (turns s) \<ge> MAX_QUESTIONS then COMPLETED
                       else status s),
            terminationReason :=
                      (if timeViolations s > MAX_VIOLATIONS_ALLOWED
                       then Some (violationReason (timeViolations s))
                       else if consecutiveWeakAnswers s \<ge> STRIKE_LIMIT
                       then Some (strikeReason (consecutiveWeakAnswers s))
                       else terminationReason s)\<rparr>"
    and "shown = (if terminated then [s'] else [])"
proof -
  consider (v) "timeViolations s > MAX_VIOLATIONS_ALLOWED"
    | (k) "\<not> timeViolations s > MAX_VIOLATIONS_ALLOWED" "consecutiveWeakAnswers s \<ge> STRIKE_LIMIT"
    | (m) "\<not> timeViolations s > MAX_VIOLATIONS_ALLOWED" "\<not> consecutiveWeakAnswers s \<ge> STRIKE_LIMIT"
          "length (turns s) \<ge> MAX_QUESTIONS"
    | (n) "\<not> timeViolations s > MAX_VIOLATIONS_ALLOWED" "\<not> consecutiveWeakAnswers s \<ge> STRIKE_LIMIT"
          "\<not> length (turns s) \<ge> MAX_QUESTIONS"
    by blast
  then have "terminated = (timeViolations s > MAX_VIOLATIONS_ALLOWED
            \<or> consecutiveWeakAnswers s \<ge> STRIKE_LIMIT \<or> length (turns s) \<ge> MAX_QUESTIONS)
    \<and> core s' = (core s)\<lparr>
            status := (if timeViolations s > MAX_VIOLATIONS_ALLOWED then TERMINATED
                       else if consecutiveWeakAnswers s \<ge> STRIKE_LIMIT then TERMINATED
                       else if length (turns s) \<ge> MAX_QUESTIONS then COMPLETED
                       else status s),
            terminationReason :=
                      (if timeViolations s > MAX_VIOLATIONS_ALLOWED
                       then Some (violationReason (timeViolations s))
                       else if consecutiveWeakAnswers s \<ge> STRIKE_LIMIT
                       then Some (strikeReason (consecutiveWeakAnswers s))
                       else terminationReason s)\<rparr>
    \<and> shown = (if terminated then [s'] else [])"
  proof cases
    case v
    with assms have "terminated" and s': "s' = fst (terminate (violationReason (timeViolations s)) s)"
      and "shown = snd (terminate (violationReason (timeViolations s)) s)"
      by (auto simp: checkTermination_def violationReason_def)
    with v show ?thesis by (simp add: core_terminate)
  next
    case k
    with assms have "terminated" and s': "s' = fst (terminate (strikeReason (consecutiveWeakAnswers s)) s)"
      and "shown = snd (terminate (strikeReason (consecutiveWeakAnswers s)) s)"
      by (auto simp: checkTermination_def strikeReason_def)
    with k show ?thesis by (simp add: core_terminate)
  next
    case m
    with assms show ?thesis
      by (auto simp: checkTermination_def Let_def core_def log_def)
  next
    case n
    with assms show ?thesis
      by (auto simp: checkTermination_def Let_def core_def)
  qed
  then show "terminated = (timeViolations s > MAX_VIOLATIONS_ALLOWED
            \<or> consecutiveWeakAnswers s \<ge> STRIKE_LIMIT \<or> length (turns s) \<ge> MAX_QUESTIONS)"
    and "core s' = (core s)\<lparr>
            status := (if timeViolations s > MAX_VIOLATIONS_ALLOWED then TERMINATED
                       else if consecutiveWeakAnswers s \<ge> STRIKE_LIMIT then TERMINATED
                       else if length (turns s) \<ge> MAX_QUESTIONS then COMPLETED
                       else status s),
            terminationReason :=
                      (if timeViolations s > MAX_VIOLATIONS_ALLOWED
                       then Some (violationReason (timeViolations s))
                       else if consecutiveWeakAnswers s \<ge> STRIKE_LIMIT
                       then Some (strikeReason (consecutiveWeakAnswers s))
                       else terminationReason s)\<rparr>"
    and "shown = (if terminated then [s'] else [])"
    by blast+
qed


lemma submitAnswer_effect:
  assumes sub: "submitAnswer ai now a t s = Inr r"
  obtains q pre raw tP gP final nd tv cwa
  where "activeQuestion s = Some q" and "status s = INTERVIEWING"
    and "pre = fst (preEvaluation a t s)"
    and "raw = fst (apiEvaluation ai q a pre s)"
    and "evaluatorCalls r = fst (snd (apiEvaluation ai q a pre s))"
    and "tP = fst (calculateTimeLogic t)"
    and "gP = fst (checkSkillGap (targetSkill q) (detectedSkillGaps s))"
    and "final = max 0 (minus64 (minus64 (calculateScore raw) tP) gP)"
    and "nd = nextDifficulty (currentDifficulty s) final (difficultyCeiling s)"
    and "tv = timeViolations s + (if snd (calculateTimeLogic t) then 1 else 0)"
    and "cwa = (if final \<le> CRITICAL_FAIL_SCORE
                then consecutiveWeakAnswers s + CRITICAL_FAIL_STRIKES
                else if final \<le> WEAK_SCORE then consecutiveWeakAnswers s + 1
                else 0)"
    and "core (finalState r) = (core s)\<lparr>
           status := (if tv > MAX_VIOLATIONS_ALLOWED then TERMINATED
                      else if cwa \<ge> STRIKE_LIMIT then TERMINATED
                      else if length (turns s) + 1 \<ge> MAX_QUESTIONS then COMPLETED
                      else GENERATING),
           evaluationMode := evaluationMode (finalState r),
           activeQuestion := None,
           turns := turns s @ [makeTurn q a raw (calculateScore raw) t tP final gP
                                 (currentDifficulty s) nd now],
           scoreHistory := scoreHistory s @ [final],
           currentDifficulty := nd,
           consecutiveWeakAnswers := cwa,
           timeViolations := tv,
           terminationReason :=
                     (if tv > MAX_VIOLATIONS_ALLOWED then Some (violationReason tv)
                      else if cwa \<ge> STRIKE_LIMIT then Some (strikeReason cwa)
                      else terminationReason s)\<rparr>"
    and "notified r = [log (EVENT_AnswerSubmitted t) (s\<lparr>status := EVALUATING\<rparr>), finalState r]"
proof -
  from sub obtain q s1 pre s2 raw calls s3 baseScore tP isViolation s4
          gP gType s5 final s6 nd s7 s8 turn s9 terminated s10 shown
  where q: "activeQuestion s = Some q" and st: "status s = INTERVIEWING"
    and e1: "log (EVENT_AnswerSubmitted t) (s\<lparr>status := EVALUATING\<rparr>) = s1"
    and e2: "preEvaluation a t s1 = (pre, s2)"
    and e3: "apiEvaluation ai q a pre s2 = (raw, calls, s3)"
    and eb: "calculateScore raw = baseScore"
    and et: "calculateTimeLogic t = (tP, isViolation)"
    and e4: "recordTimeViolation tP isViolation s3 = s4"
    and eg: "checkSkillGap (targetSkill q) (detectedSkillGaps s4) = (gP, gType)"
    and e5: "(if gP > 0
          then log (POLICY_SkillGapPenalty gType (targetSkill q) gP) s4 else s4) = s5"
    and ef: "max 0 (minus64 (minus64 baseScore tP) gP) = final"
    and e6: "log (SCORE_Line baseScore tP gP (toFixed 2 final)) s5 = s6"
    and en: "nextDifficulty (currentDifficulty s6) final (difficultyCeiling s6) = nd"
    and e7: "logAdaptation nd s6 = s7"
    and e8: "strikeSystem final s7 = s8"
    and etn: "makeTurn q a raw baseScore t tP final gP (currentDifficulty s8) nd now = turn"
    and e9: "s8\<lparr> turns := turns s8 @ [turn], scoreHistory := scoreHistory s8 @ [final],
              currentDifficulty := nd, activeQuestion := None \<rparr> = s9"
    and ec: "checkTermination s9 = (terminated, s10, shown)"
    and er: "r = (if \<not> terminated
              then \<lparr> finalState = s10\<lparr>status := GENERATING\<rparr>,
                     notified = [s1, s10\<lparr>status := GENERATING\<rparr>],
                     evaluatorCalls = calls \<rparr>
              else \<lparr> finalState = s10, notified = s1 # shown, evaluatorCalls = calls \<rparr>)"
    by (rule submitAnswer_chain)
  define tv where "tv = timeViolations s + (if snd (calculateTimeLogic t) then 1 else 0)"
  define cwa where "cwa = (if final \<le> CRITICAL_FAIL_SCORE
                then consecutiveWeakAnswers s + CRITICAL_FAIL_STRIKES
                else if final \<le> WEAK_SCORE then consecutiveWeakAnswers s + 1
                else 0)"
  have c1: "core s1 = (core s)\<lparr>status := EVALUATING\<rparr>"
    using e1 by (auto simp: core_def log_def Let_def)
  have c2: "core s2 = core s1"
    using core_preEvaluation [of a t s1] by (simp add: e2)
  have c3: "core s3 = (core s2)\<lparr>evaluationMode := evaluationMode s3\<rparr>"
    using core_apiEvaluation [of ai q a pre s2] by (simp add: e3)
  have c4: "core s4 = (core s3)\<lparr>timeViolations := timeViolations s3 + (if isViolation then 1 else 0)\<rparr>"
    using core_recordTimeViolation [of tP isViolation s3] by (simp add: e4)
  have c5: "core s5 = core s4"
    using e5 by (auto split: if_splits)
  have c6: "core s6 = core s5"
    using e6 by auto
  have c7: "core s7 = core s6"
    using core_logAdaptation [of nd s6] by (simp add: e7)
  have c8: "core s8 = (core s7)\<lparr>consecutiveWeakAnswers :=
        (if final \<le> CRITICAL_FAIL_SCORE then consecutiveWeakAnswers s7 + CRITICAL_FAIL_STRIKES
         else if final \<le> WEAK_SCORE then consecutiveWeakAnswers s7 + 1
         else 0)\<rparr>"
    using core_strikeSystem [of final s7] by (simp add: e8)
  have c9: "core s9 = (core s8)\<lparr> turns := turns s8 @ [turn],
              scoreHistory := scoreHistory s8 @ [final],
              currentDifficulty := nd, activeQuestion := None \<rparr>"
    using e9 by (auto simp: core_def)
  have pre: "pre = fst (preEvaluation a t s)"
    using preEvaluation_fst_state [of a t s1 s] by (simp add: e2)
  have raw: "raw = fst (apiEvaluation ai q a pre s)"
    using apiEvaluation_fst_state(1) [of ai q a pre s2 s] by (simp add: e3)
  have calls: "calls = fst (snd (apiEvaluation ai q a pre s))"
    using apiEvaluation_fst_state(2) [of ai q a pre s2 s] by (simp add: e3)
  have tP: "tP = fst (calculateTimeLogic t)" and isV: "isViolation = snd (calculateTimeLogic t)"
    by (simp_all add: et)
  have f3: "timeViolations s3 = timeViolations s" "consecutiveWeakAnswers s3 = consecutiveWeakAnswers s"
    "detectedSkillGaps s3 = detectedSkillGaps s" "currentDifficulty s3 = currentDifficulty s"
    "difficultyCeiling s3 = difficultyCeiling s" "turns s3 = turns s" "scoreHistory s3 = scoreHistory s"
    "terminationReason s3 = terminationReason s" "status s3 = EVALUATING"
    using arg_cong [OF c3, of timeViolations] arg_cong [OF c3, of consecutiveWeakAnswers]
      arg_cong [OF c3, of detectedSkillGaps] arg_cong [OF c3, of currentDifficulty]
      arg_cong [OF c3, of difficultyCeiling] arg_cong [OF c3, of turns]
      arg_cong [OF c3, of scoreHistory] arg_cong [OF c3, of terminationReason]
      arg_cong [OF c3, of status]
    by (simp_all add: c2 c1)
  have c4': "core s4 = (core s)\<lparr>status := EVALUATING, evaluationMode := evaluationMode s3,
                timeViolations := tv\<rparr>"
    by (simp add: c4 c3 c2 c1 f3 tv_def isV)
  have gP: "gP = fst (checkSkillGap (targetSkill q) (detectedSkillGaps s))"
    using eg arg_cong [OF c4', of detectedSkillGaps] by simp
  have c7': "core s7 = core s4"
    by (simp add: c7 c6 c5)
  have f7: "consecutiveWeakAnswers s7 = consecutiveWeakAnswers s"
    "currentDifficulty s6 = currentDifficulty s" "difficultyCeiling s6 = difficultyCeiling s"
    using arg_cong [OF c7', of consecutiveWeakAnswers] arg_cong [OF c6, of currentDifficulty]
      arg_cong [OF c6, of difficultyCeiling]
    by (simp_all add: c4' c5)
  have nd: "nd = nextDifficulty (currentDifficulty s) final (difficultyCeiling s)"
    using en by (simp add: f7)
  have c8': "core s8 = (core s)\<lparr>status := EVALUATING, evaluationMode := evaluationMode s3,
                timeViolations := tv, consecutiveWeakAnswers := cwa\<rparr>"
    by (simp add: c8 c7' c4' f7 cwa_def)
  have f8: "turns s8 = turns s" "scoreHistory s8 = scoreHistory s"
    "currentDifficulty s8 = currentDifficulty s"
    using arg_cong [OF c8', of turns] arg_cong [OF c8', of scoreHistory]
      arg_cong [OF c8', of currentDifficulty]
    by simp_all
  have turn: "turn = makeTurn q a raw (calculateScore raw) t tP final gP (currentDifficulty s) nd now"
    using etn by (simp add: eb f8)
  have c9': "core s9 = (core s)\<lparr>status := EVALUATING, evaluationMode := evaluationMode s3,
                timeViolations := tv, consecutiveWeakAnswers := cwa,
                turns := turns s @ [turn], scoreHistory := scoreHistory s @ [final],
                currentDifficulty := nd, activeQuestion := None\<rparr>"
    by (simp add: c9 c8' f8)
  have f9: "timeViolations s9 = tv" "consecutiveWeakAnswers s9 = cwa"
    "length (turns s9) = length (turns s) + 1" "terminationReason s9 = terminationReason s"
    "status s9 = EVALUATING" "evaluationMode s9 = evaluationMode s3"
    using arg_cong [OF c9', of timeViolations] arg_cong [OF c9', of consecutiveWeakAnswers]
      arg_cong [OF c9', of turns] arg_cong [OF c9', of terminationReason]
      arg_cong [OF c9', of status] arg_cong [OF c9', of evaluationMode]
    by simp_all
  note ct = checkTermination_effect [OF ec, unfolded f9]
  have em: "evaluationMode s10 = evaluationMode s3"
    using arg_cong [OF ct(2), of evaluationMode] by (simp add: f9)
  have fin: "core (finalState r) = (core s)\<lparr>
           status := (if tv > MAX_VIOLATIONS_ALLOWED then TERMINATED
                      else if cwa \<ge> STRIKE_LIMIT then TERMINATED
                      else if length (turns s) + 1 \<ge> MAX_QUESTIONS then COMPLETED
                      else GENERATING),
           evaluationMode := evaluationMode (finalState r),
           activeQuestion := None,
           turns := turns s @ [turn],
           scoreHistory := scoreHistory s @ [final],
           currentDifficulty := nd,
           consecutiveWeakAnswers := cwa,
           timeViolations := tv,
           terminationReason :=
                     (if tv > MAX_VIOLATIONS_ALLOWED then Some (violationReason tv)
                      else if cwa \<ge> STRIKE_LIMIT then Some (strikeReason cwa)
                      else terminationReason s)\<rparr>"
  proof (cases terminated)
    case True
    then have "finalState r = s10" by (simp add: er)
    with True ct(1) show ?thesis
      by (simp add: ct(2) c9' em) (auto simp: core_def)
  next
    case False
    then have fr: "finalState r = s10\<lparr>status := GENERATING\<rparr>" by (simp add: er)
    have "core (s10\<lparr>status := GENERATING\<rparr>) = (core s10)\<lparr>status := GENERATING\<rparr>"
      by (simp add: core_def)
    with False ct(1) show ?thesis
      by (simp add: fr ct(2) c9' em)
  qed
  have nt: "notified r = [s1, finalState r]"
    using ct(3) by (cases terminated) (simp_all add: er)
  have ecalls: "evaluatorCalls r = fst (snd (apiEvaluation ai q a pre s))"
    using calls by (cases terminated) (simp_all add: er)
  have final: "final = max 0 (minus64 (minus64 (calculateScore raw) tP) gP)"
    using ef eb by simp
  have nt': "notified r = [log (EVENT_AnswerSubmitted t) (s\<lparr>status := EVALUATING\<rparr>), finalState r]"
    using nt e1 by simp
  show thesis
    by (rule that [OF q st pre raw ecalls tP gP final nd tv_def cwa_def fin [unfolded turn] nt'])
qed


lemma submitAnswer_fields:
  assumes sub: "submitAnswer ai now a t s = Inr r"
  obtains q pre raw tP gP final nd tv cwa
  where "activeQuestion s = Some q" and "status s = INTERVIEWING"
    and "pre = fst (preEvaluation a t s)"
    and "raw = fst (apiEvaluation ai q a pre s)"
    and "evaluatorCalls r = fst (snd (apiEvaluation ai q a pre s))"
    and "tP = fst (calculateTimeLogic t)"
    and "gP = fst (checkSkillGap (targetSkill q) (detectedSkillGaps s))"
    and "final = max 0 (minus64 (minus64 (calculateScore raw) tP) gP)"
    and "nd = nextDifficulty (currentDifficulty s) final (difficultyCeiling s)"
    and "tv = timeViolations s + (if snd (calculateTimeLogic t) then 1 else 0)"
    and "cwa = (if final \<le> CRITICAL_FAIL_SCORE
                then consecutiveWeakAnswers s + CRITICAL_FAIL_STRIKES
                else if final \<le> WEAK_SCORE then consecutiveWeakAnswers s + 1
                else 0)"
    and "status (finalState r) =
           (if tv > MAX_VIOLATIONS_ALLOWED then TERMINATED
            else if cwa \<ge> STRIKE_LIMIT then TERMINATED
            else if length (turns s) + 1 \<ge> MAX_QUESTIONS then COMPLETED
            else GENERATING)"
    and "terminationReason (finalState r) =
           (if tv > MAX_VIOLATIONS_ALLOWED then Some (violationReason tv)
            else if cwa \<ge> STRIKE_LIMIT then Some (strikeReason cwa)
            else terminationReason s)"
    and "activeQuestion (finalState r) = None"
    and "turns (finalState r) =
           turns s @ [makeTurn q a raw (calculateScore raw) t tP final gP
                        (currentDifficulty s) nd now]"
    and "scoreHistory (finalState r) = scoreHistory s @ [final]"
    and "currentDifficulty (finalState r) = nd"
    and "consecutiveWeakAnswers (finalState r) = cwa"
    and "timeViolations (finalState r) = tv"
    and "difficultyCeiling (finalState r) = difficultyCeiling s"
    and "detectedSkillGaps (finalState r) = detectedSkillGaps s"
    and "notified r = [log (EVENT_AnswerSubmitted t) (s\<lparr>status := EVALUATING\<rparr>), finalState r]"
proof -
  from sub obtain q pre raw tP gP final nd tv cwa
  where q: "activeQuestion s = Some q" and st: "status s = INTERVIEWING"
    and pre: "pre = fst (preEvaluation a t s)"
    and raw: "raw = fst (apiEvaluation ai q a pre s)"
    and calls: "evaluatorCalls r = fst (snd (apiEvaluation ai q a pre s))"
    and tP: "tP = fst (calculateTimeLogic t)"
    and gP: "gP = fst (checkSkillGap (targetSkill q) (detectedSkillGaps s))"
    and final: "final = max 0 (minus64 (minus64 (calculateScore raw) tP) gP)"
    and nd: "nd = nextDifficulty (currentDifficulty s) final (difficultyCeiling s)"
    and tv: "tv = timeViolations s + (if snd (calculateTimeLogic t) then 1 else 0)"
    and cwa: "cwa = (if final \<le> CRITICAL_FAIL_SCORE
                then consecutiveWeakAnswers s + CRITICAL_FAIL_STRIKES
                else if final \<le> WEAK_SCORE then consecutiveWeakAnswers s + 1
                else 0)"
    and fin: "core (finalState r) = (core s)\<lparr>
           status := (if tv > MAX_VIOLATIONS_ALLOWED then TERMINATED
                      else if cwa \<ge> STRIKE_LIMIT then TERMINATED
                      else if length (turns s) + 1 \<ge> MAX_QUESTIONS then COMPLETED
                      else GENERATING),
           evaluationMode := evaluationMode (finalState r),
           activeQuestion := None,
           turns := turns s @ [makeTurn q a raw (calculateScore raw) t tP final gP
                                 (currentDifficulty s) nd now],
           scoreHistory := scoreHistory s @ [final],
           currentDifficulty := nd,
           consecutiveWeakAnswers := cwa,
           timeViolations := tv,
           terminationReason :=
                     (if tv > MAX_VIOLATIONS_ALLOWED then Some (violationReason tv)
                      else if cwa \<ge> STRIKE_LIMIT then Some (strikeReason cwa)
                      else terminationReason s)\<rparr>"
    and nt: "notified r = [log (EVENT_AnswerSubmitted t) (s\<lparr>status := EVALUATING\<rparr>), finalState r]"
    by (rule submitAnswer_effect)
  note f = arg_cong [OF fin, of status] arg_cong [OF fin, of terminationReason]
    arg_cong [OF fin, of activeQuestion] arg_cong [OF fin, of turns]
    arg_cong [OF fin, of scoreHistory] arg_cong [OF fin, of currentDifficulty]
    arg_cong [OF fin, of consecutiveWeakAnswers] arg_cong [OF fin, of timeViolations]
    arg_cong [OF fin, of difficultyCeiling] arg_cong [OF fin, of detectedSkillGaps]
  show thesis
    by (rule that [OF q st pre raw calls tP gP final nd tv cwa _ _ _ _ _ _ _ _ _ _ nt])
       (use f in simp_all)
qed

subsection \<open>Rounding to a double\<close>

lemma double_zero [simp]: "double 0 = 0"
  by (simp add: double_def)

lemma roundEven_near: "\<bar>of_int (roundEven q) - q\<bar> \<le> 1 / 2"
proof -
  have "of_int \<lfloor>q\<rfloor> \<le> q" and "q < of_int \<lfloor>q\<rfloor> + 1" by linarith+
  then show ?thesis
    unfolding roundEven_def Let_def by (auto simp: abs_le_iff)
qed

lemma roundEven_nonneg:
  assumes "0 \<le> q"
  shows "0 \<le> roundEven q"
proof -
  from assms have "0 \<le> \<lfloor>q\<rfloor>" by simp
  then show ?thesis
    unfolding roundEven_def Let_def by auto
qed

lemma ilog2_le:
  assumes "0 < a"
  shows "2 powi (ilog2 a) \<le> a"
proof (cases "1 \<le> a")
  case True
  define n where "n = nat \<lfloor>a\<rfloor>"
  from True have n: "0 < n" and na: "real n \<le> a"
    by (simp_all add: n_def)
  from floorlog_bounds [of n 2] n have b: "2 ^ (floorlog 2 n - 1) \<le> n" by simp
  from n have k: "0 < floorlog 2 n" by (simp add: floorlog_def)
  have "ilog2 a = int (floorlog 2 n - 1)"
    using True k by (simp add: ilog2_def n_def)
  then have "(2::real) powi (ilog2 a) = 2 ^ (floorlog 2 n - 1)"
    by (simp add: power_int_def)
  also have "\<dots> = real (2 ^ (floorlog 2 n - 1))" by simp
  also have "\<dots> \<le> real n" using b by (rule iffD2 [OF of_nat_le_iff])
  finally show ?thesis using na by simp
next
  case False
  define m where "m = nat (\<lceil>1 / a\<rceil> - 1)"
  from False assms have "1 < 1 / a" by simp
  then have c: "2 \<le> \<lceil>1 / a\<rceil>" by linarith
  then have m: "0 < m" by (simp add: m_def)
  from floorlog_bounds [of m 2] m have b: "m < 2 ^ floorlog 2 m" by simp
  from c have z: "0 \<le> \<lceil>1 / a\<rceil> - 1" by linarith
  have "int m = \<lceil>1 / a\<rceil> - 1"
    unfolding m_def using z by (rule nat_0_le)
  then have "\<lceil>1 / a\<rceil> = int m + 1" by linarith
  moreover from b have "int m < int (2 ^ floorlog 2 m)"
    by (rule iffD2 [OF of_nat_less_iff])
  ultimately have "\<lceil>1 / a\<rceil> \<le> int (2 ^ floorlog 2 m)" by linarith
  then have "real_of_int \<lceil>1 / a\<rceil> \<le> real_of_int (int (2 ^ floorlog 2 m))"
    by (rule iffD2 [OF of_int_le_iff])
  then have "real_of_int \<lceil>1 / a\<rceil> \<le> 2 ^ floorlog 2 m"
    by simp
  moreover have "1 / a \<le> real_of_int \<lceil>1 / a\<rceil>" by linarith
  ultimately have "1 / a \<le> 2 ^ floorlog 2 m" by linarith
  then have "1 / 2 ^ floorlog 2 m \<le> a"
    using assms by (simp add: field_simps)
  moreover have "ilog2 a = - int (floorlog 2 m)"
    using False unfolding ilog2_def m_def by (simp only: if_False)
  then have "(2::real) powi (ilog2 a) = 1 / 2 ^ floorlog 2 m"
    by (simp add: power_int_def field_simps)
  ultimately show ?thesis by simp
qed

lemma double_error: "\<bar>double x - x\<bar> \<le> \<bar>x\<bar> / 2 ^ 53 + 2 powi (- 1075)"
proof (cases "x = 0")
  case True
  then show ?thesis by simp
next
  case False
  define a where "a = \<bar>x\<bar>"
  define e where "e = max (ilog2 a) (- 1022)"
  define u :: real where "u = 2 powi (e - 52)"
  define n where "n = roundEven (a / u)"
  from False have a: "0 < a" by (simp add: a_def)
  have u: "0 < u" by (simp add: u_def)
  have d: "double x = (if x < 0 then - (of_int n * u) else of_int n * u)"
    using False by (simp add: double_def Let_def a_def e_def u_def n_def)
  have "\<bar>of_int n - a / u\<bar> \<le> 1 / 2"
    unfolding n_def by (rule roundEven_near)
  then have "\<bar>of_int n - a / u\<bar> * u \<le> 1 / 2 * u"
    using u by (simp add: mult_right_mono)
  moreover have "\<bar>of_int n - a / u\<bar> * u = \<bar>of_int n * u - a\<bar>"
  proof -
    have "\<bar>of_int n - a / u\<bar> * u = \<bar>of_int n - a / u\<bar> * \<bar>u\<bar>"
      using u by simp
    also have "\<dots> = \<bar>(of_int n - a / u) * u\<bar>"
      by (simp only: abs_mult)
    also have "(of_int n - a / u) * u = of_int n * u - a"
      using u by (simp add: left_diff_distrib)
    finally show ?thesis .
  qed
  ultimately have near: "\<bar>of_int n * u - a\<bar> \<le> u / 2" by simp
  have err: "\<bar>double x - x\<bar> = \<bar>of_int n * u - a\<bar>"
    unfolding d a_def by (cases "x < 0") (simp_all add: abs_minus_commute)
  have half: "u / 2 = 2 powi (e - 53)"
    unfolding u_def by (simp add: power_int_diff)
  have "2 powi (e - 53) \<le> a / 2 ^ 53 + 2 powi (- 1075)"
  proof (cases "- 1022 \<le> ilog2 a")
    case True
    then have "e = ilog2 a" by (simp add: e_def)
    then have "(2::real) powi (e - 53) = 2 powi (ilog2 a) / 2 ^ 53"
      by (simp add: power_int_diff)
    also have "\<dots> \<le> a / 2 ^ 53"
      using ilog2_le [OF a] by (simp add: divide_right_mono)
    finally show ?thesis by (simp add: add_increasing2)
  next
    case False
    then have "e = - 1022" by (simp add: e_def)
    then have "(2::real) powi (e - 53) = 2 powi (- 1075)" by simp
    then show ?thesis using a by simp
  qed
  with near half err show ?thesis unfolding a_def by simp
qed

lemma double_near:
  assumes "\<bar>x\<bar> \<le> 32"
  shows "\<bar>double x - x\<bar> \<le> 1 / 2 ^ 47"
proof -
  have "(2::real) powi (- 1075) \<le> 2 powi (- 48)"
    by (rule power_int_increasing) simp_all
  also have "\<dots> = 1 / 2 ^ 48" by (simp add: power_int_def field_simps)
  finally have t: "(2::real) powi (- 1075) \<le> 1 / 2 ^ 48" .
  from assms have "\<bar>x\<bar> / 2 ^ 53 \<le> 32 / 2 ^ 53" by (simp add: divide_right_mono)
  with double_error [of x] t have "\<bar>double x - x\<bar> \<le> 32 / 2 ^ 53 + 1 / 2 ^ 48"
    by linarith
  then show ?thesis by simp
qed

lemma double_nonpos:
  assumes "x \<le> 0"
  shows "double x \<le> 0"
proof (cases "x = 0")
  case True
  then show ?thesis by simp
next
  case False
  with assms have neg: "x < 0" by simp
  define u :: real where "u = 2 powi (max (ilog2 \<bar>x\<bar>) (- 1022) - 52)"
  have u: "0 < u" by (simp add: u_def)
  then have "0 \<le> \<bar>x\<bar> / u" by simp
  then have "0 \<le> roundEven (\<bar>x\<bar> / u)" by (rule roundEven_nonneg)
  then have "0 \<le> of_int (roundEven (\<bar>x\<bar> / u)) * u" using u by simp
  then show ?thesis
    using neg False by (simp add: double_def Let_def u_def)
qed

lemma weighted_product_near:
  assumes "0 \<le> v" and "v \<le> 10" and "0 \<le> w" and "w \<le> 1"
  shows "\<bar>times64 (double v) (double w) - v * w\<bar> \<le> 13 / 2 ^ 47"
proof -
  have v: "\<bar>double v - v\<bar> \<le> 1 / 2 ^ 47"
    using assms by (intro double_near) simp
  have w: "\<bar>double w - w\<bar> \<le> 1 / 2 ^ 47"
    using assms by (intro double_near) simp
  have k: "(1::real) / 2 ^ 47 \<le> 1" by simp
  have bv: "\<bar>double v\<bar> \<le> 11" using v assms k by linarith
  have bw: "\<bar>double w\<bar> \<le> 2" using w assms k by linarith
  have "\<bar>double v * double w\<bar> \<le> 11 * 2"
    unfolding abs_mult using bv bw by (intro mult_mono) simp_all
  then have q: "\<bar>double (double v * double w) - double v * double w\<bar> \<le> 1 / 2 ^ 47"
    by (intro double_near) simp
  have split: "double v * double w - v * w = double v * (double w - w) + (double v - v) * w"
    by (simp add: algebra_simps)
  have "\<bar>double v * (double w - w)\<bar> \<le> 11 * (1 / 2 ^ 47)"
    unfolding abs_mult using bv w by (intro mult_mono) simp_all
  moreover have "\<bar>(double v - v) * w\<bar> \<le> 1 / 2 ^ 47 * 1"
    unfolding abs_mult using v assms by (intro mult_mono) simp_all
  ultimately have "\<bar>double v * double w - v * w\<bar> \<le> 12 / 2 ^ 47"
    unfolding split by linarith
  with q show ?thesis
    unfolding times64_def by linarith
qed

lemma sum_near:
  assumes "\<bar>x - ex\<bar> \<le> \<alpha>" and "\<bar>y - ey\<bar> \<le> \<beta>" and "\<bar>ex + ey\<bar> \<le> 20" and "\<alpha> + \<beta> \<le> 1"
  shows "\<bar>plus64 x y - (ex + ey)\<bar> \<le> \<alpha> + \<beta> + 1 / 2 ^ 47"
proof -
  from assms have "\<bar>x + y\<bar> \<le> 32" by linarith
  then have "\<bar>double (x + y) - (x + y)\<bar> \<le> 1 / 2 ^ 47" by (rule double_near)
  with assms show ?thesis unfolding plus64_def by linarith
qed

lemma penalised_zero:
  assumes "0 \<le> tP" and "0 \<le> gP"
  shows "max 0 (minus64 (minus64 0 tP) gP) = 0"
proof -
  from assms(1) have "minus64 0 tP \<le> 0"
    unfolding minus64_def by (intro double_nonpos) simp
  with assms(2) have "minus64 (minus64 0 tP) gP \<le> 0"
    unfolding minus64_def [of _ gP] by (intro double_nonpos) simp
  then show ?thesis by simp
qed

lemma toFixed_1_half:
  assumes "0 \<le> n"
  shows "toFixed 1 (of_int n * (1 / 2)) = of_int n / 2"
proof -
  have "\<lfloor>(of_int n * (1 / 2) :: real) * 10 ^ 1 + 1 / 2\<rfloor> = \<lfloor>of_int (5 * n) + (1 / 2 :: real)\<rfloor>"
    by simp
  also have "\<dots> = 5 * n"
    by (subst floor_eq_iff) simp
  finally have fl: "\<lfloor>(of_int n * (1 / 2) :: real) * 10 ^ 1 + 1 / 2\<rfloor> = 5 * n" .
  from assms have "\<not> (of_int n * (1 / 2) :: real) < 0" by simp
  then show ?thesis
    unfolding toFixed_def by (simp only: if_False fl) simp
qed

lemma overtime_steps_pos:
  assumes "60 < (t::real)"
  shows "0 < \<lceil>(t - 60) / 5\<rceil>"
  using assms by (simp add: ceiling_less_iff)

lemma submitAnswer_succeeds:
  assumes "activeQuestion s = Some q" and "status s = INTERVIEWING"
  shows "\<exists>r. submitAnswer ai now a t s = Inr r"
  unfolding submitAnswer_def
  by (simp only: assms option.case simp_thms if_False) (rule exI, rule refl)

lemma sessionAtQuestion_fields:
  "activeQuestion sessionAtQuestion = Some sampleQuestion"
  "status sessionAtQuestion = INTERVIEWING"
  "timeViolations sessionAtQuestion = 0"
  "consecutiveWeakAnswers sessionAtQuestion = 0"
  "turns sessionAtQuestion = []"
  "detectedSkillGaps sessionAtQuestion = []"
  by (simp_all add: sessionAtQuestion_def presentQuestion_def getInitialState_def Let_def)

lemma projr_Inr:
  assumes "\<exists>r. x = Inr r"
  shows "x = Inr (projr x)"
  using assms by auto

lemma showNat_2: "showNat 2 = ''2''"
  by code_simp

lemma showNat_3: "showNat 3 = ''3''"
  by code_simp

lemma violationReason_eq:
  "violationReason n = ''Time Management Failure: '' @ showNat n @ '' violations exceeded limit of 2.''"
  by (simp add: violationReason_def MAX_VIOLATIONS_ALLOWED_def showNat_2)

lemma presentQuestion_fields:
  "status (fst (presentQuestion q s)) = INTERVIEWING"
  "activeQuestion (fst (presentQuestion q s)) = Some q"
  "consecutiveWeakAnswers (fst (presentQuestion q s)) = consecutiveWeakAnswers s"
  "timeViolations (fst (presentQuestion q s)) = timeViolations s"
  "turns (fst (presentQuestion q s)) = turns s"
  "currentDifficulty (fst (presentQuestion q s)) = currentDifficulty s"
  "difficultyCeiling (fst (presentQuestion q s)) = difficultyCeiling s"
  "detectedSkillGaps (fst (presentQuestion q s)) = detectedSkillGaps s"
  "snd (presentQuestion q s) = [fst (presentQuestion q s)]"
  by (simp_all add: presentQuestion_def Let_def)

lemma submitAnswer_presented:
  "\<exists>r. submitAnswer ai now a t (fst (presentQuestion q s)) = Inr r"
  by (rule submitAnswer_succeeds [OF presentQuestion_fields(2,1)])

lemma submitAnswer_strikes:
  assumes "submitAnswer ai now a t s = Inr r"
  shows "consecutiveWeakAnswers (finalState r) =
       (if finalScore (evaluation (last (turns (finalState r)))) \<le> 2
        then consecutiveWeakAnswers s + 2
        else if finalScore (evaluation (last (turns (finalState r)))) \<le> 4.5
        then consecutiveWeakAnswers s + 1
        else 0)"
proof -
  from assms obtain q raw tP gP final nd cwa
    where cwa: "cwa = (if final \<le> CRITICAL_FAIL_SCORE
                then consecutiveWeakAnswers s + CRITICAL_FAIL_STRIKES
                else if final \<le> WEAK_SCORE then consecutiveWeakAnswers s + 1
                else 0)"
      and tn: "turns (finalState r) =
           turns s @ [makeTurn q a raw (calculateScore raw) t tP final gP
                        (currentDifficulty s) nd now]"
      and cw: "consecutiveWeakAnswers (finalState r) = cwa"
    by (rule submitAnswer_fields)
  have f: "finalScore (evaluation (last (turns (finalState r)))) = final"
    by (simp add: tn makeTurn_def)
  show ?thesis
    unfolding f cw cwa by (simp add: policy)
qed

lemma toFixed_2_near:
  "\<bar>toFixed 2 x - x\<bar> \<le> 1 / 200" "\<exists>k::int. toFixed 2 x = of_int k / 100"
proof -
  have fl: "\<And>y::real. \<bar>of_int \<lfloor>y + 1 / 2\<rfloor> - y\<bar> \<le> 1 / 2"
  proof -
    fix y :: real
    have "of_int \<lfloor>y + 1 / 2\<rfloor> \<le> y + 1 / 2" and "y + 1 / 2 < of_int \<lfloor>y + 1 / 2\<rfloor> + 1"
      by linarith+
    then show "\<bar>of_int \<lfloor>y + 1 / 2\<rfloor> - y\<bar> \<le> 1 / 2" by linarith
  qed
  show "\<bar>toFixed 2 x - x\<bar> \<le> 1 / 200"
  proof (cases "x < 0")
    case True
    define n where "n = \<lfloor>- x * 100 + 1 / 2\<rfloor>"
    have tf: "toFixed 2 x = - (of_int n / 100)"
      using True by (simp add: toFixed_def n_def)
    have "\<bar>of_int n - (- x * 100)\<bar> \<le> 1 / 2"
      unfolding n_def by (rule fl)
    then show ?thesis unfolding tf by linarith
  next
    case False
    define n where "n = \<lfloor>x * 100 + 1 / 2\<rfloor>"
    have tf: "toFixed 2 x = of_int n / 100"
      using False by (simp add: toFixed_def n_def)
    have "\<bar>of_int n - x * 100\<bar> \<le> 1 / 2"
      unfolding n_def by (rule fl)
    then show ?thesis unfolding tf by linarith
  qed
  show "\<exists>k::int. toFixed 2 x = of_int k / 100"
  proof (cases "x < 0")
    case True
    then have "toFixed 2 x = of_int (- \<lfloor>- x * 100 + 1 / 2\<rfloor>) / 100"
      by (simp add: toFixed_def)
    then show ?thesis by blast
  next
    case False
    then have "toFixed 2 x = of_int \<lfloor>x * 100 + 1 / 2\<rfloor> / 100"
      by (simp add: toFixed_def)
    then show ?thesis by blast
  qed
qed

lemma trim_Nil_iff: "trim a = [] \<longleftrightarrow> (\<forall>c\<in>set a. isWhiteSpace c)"
proof
  assume "trim a = []"
  then have all: "\<forall>x\<in>set (dropWhile isWhiteSpace a). isWhiteSpace x"
    by (simp add: trim_def dropWhile_eq_Nil_conv)
  have "dropWhile isWhiteSpace a = []"
  proof (rule ccontr)
    assume ne: "dropWhile isWhiteSpace a \<noteq> []"
    then have "\<not> isWhiteSpace (hd (dropWhile isWhiteSpace a))"
      by (rule hd_dropWhile)
    moreover from ne have "hd (dropWhile isWhiteSpace a) \<in> set (dropWhile isWhiteSpace a)"
      by (rule hd_in_set)
    ultimately show False using all by blast
  qed
  then show "\<forall>c\<in>set a. isWhiteSpace c"
    by (simp add: dropWhile_eq_Nil_conv)
next
  assume "\<forall>c\<in>set a. isWhiteSpace c"
  then have d: "dropWhile isWhiteSpace a = []"
    by (simp add: dropWhile_eq_Nil_conv)
  show "trim a = []"
    unfolding trim_def d by simp
qed

lemma prefilter_fires:
  assumes "(\<forall>c\<in>set a. isWhiteSpace c) \<or> (5 < length a \<and> t * 1000 < 2000)"
  shows "\<exists>z. fst (preEvaluation a t s) = Some z \<and> accuracy z = 0 \<and> clarity z = 0
            \<and> depth z = 0 \<and> relevance z = 0 \<and> isFallback z"
proof (cases "\<forall>c\<in>set a. isWhiteSpace c")
  case True
  then have "trim a = []" by (simp add: trim_Nil_iff)
  then show ?thesis
    by (simp add: preEvaluation_def Let_def policy)
next
  case False
  with assms have sp: "5 < length a" "t * 1000 < 2000" by blast+
  from False have "trim a \<noteq> []" by (simp add: trim_Nil_iff)
  moreover from sp have "a \<noteq> []" by auto
  ultimately show ?thesis
    using sp by (simp add: preEvaluation_def Let_def policy)
qed

lemma prefilter_passes:
  assumes "\<not> ((\<forall>c\<in>set a. isWhiteSpace c) \<or> (5 < length a \<and> t * 1000 < 2000))"
  shows "fst (preEvaluation a t s) = None"
proof -
  from assms have "trim a \<noteq> []" by (simp add: trim_Nil_iff)
  moreover from assms have "a \<noteq> []" by auto
  moreover from assms have "\<not> (t * 1000 < 2000 \<and> 5 < length a)" by blast
  ultimately show ?thesis
    by (simp add: preEvaluation_def Let_def policy)
qed

lemma apiEvaluation_Some:
  "fst (apiEvaluation ai q a (Some z) s) = z"
  "fst (snd (apiEvaluation ai q a (Some z) s)) = []"
  by (simp_all add: apiEvaluation_def)

lemma apiEvaluation_None:
  "fst (apiEvaluation ai q a None s) = evaluateAnswer ai q a"
  "fst (snd (apiEvaluation ai q a None s)) = [(q, a)]"
  by (simp_all add: apiEvaluation_def Let_def)

lemma apiEvaluation_prefiltered:
  assumes "(\<forall>c\<in>set a. isWhiteSpace c) \<or> (5 < length a \<and> t * 1000 < 2000)"
  shows "apiEvaluation ai q a (fst (preEvaluation a t s)) s'
       = apiEvaluation ai' q a (fst (preEvaluation a t s)) s'"
proof -
  from prefilter_fires [OF assms] obtain z where "fst (preEvaluation a t s) = Some z"
    by blast
  then show ?thesis by (simp add: apiEvaluation_def)
qed

lemma submitAnswer_prefiltered:
  assumes "(\<forall>c\<in>set a. isWhiteSpace c) \<or> (5 < length a \<and> t * 1000 < 2000)"
  shows "submitAnswer ai now a t s = submitAnswer ai' now a t s"
  unfolding submitAnswer_def
  by (simp only: Let_def case_prod_beta apiEvaluation_prefiltered [OF assms, where ai = ai and ai' = ai'])

lemma calculateScore_zero:
  assumes "accuracy z = 0" "clarity z = 0" "depth z = 0" "relevance z = 0"
  shows "calculateScore z = 0"
  using assms
  by (simp add: calculateScore_def times64_def plus64_def toFixed_def)

lemma calculateTimeLogic_over:
  assumes "60 < t"
  shows "calculateTimeLogic t = (of_int \<lceil>(t - 60) / 5\<rceil> * 0.5, True)"
    and "0 < fst (calculateTimeLogic t)"
proof -
  from assms have pos: "0 < \<lceil>(t - 60) / 5\<rceil>" by (rule overtime_steps_pos)
  have eq: "calculateTimeLogic t = (toFixed 1 (of_int \<lceil>(t - 60) / 5\<rceil> * 0.5), True)"
    using assms by (simp add: calculateTimeLogic_def policy Let_def)
  have rd: "toFixed 1 (of_int \<lceil>(t - 60) / 5\<rceil> * 0.5) = of_int \<lceil>(t - 60) / 5\<rceil> * 0.5"
    using toFixed_1_half [of "\<lceil>(t - 60) / 5\<rceil>"] pos by simp
  show val: "calculateTimeLogic t = (of_int \<lceil>(t - 60) / 5\<rceil> * 0.5, True)"
    by (simp only: eq rd)
  show "0 < fst (calculateTimeLogic t)"
    unfolding val using pos by simp
qed

lemma calculateTimeLogic_nonneg: "0 \<le> fst (calculateTimeLogic t)"
proof (cases "60 < t")
  case True
  then show ?thesis using calculateTimeLogic_over(2) [of t] by simp
next
  case False
  then show ?thesis by (simp add: calculateTimeLogic_def policy)
qed

lemma calculateTimeLogic_violation: "snd (calculateTimeLogic t) = (60 < t)"
  by (simp add: calculateTimeLogic_def policy Let_def)

lemma checkSkillGap_nonneg: "0 \<le> fst (checkSkillGap k gaps)"
  by (simp add: checkSkillGap_def policy split: option.split)

lemma submitAnswer_prefilter_effect:
  assumes sub: "submitAnswer ai now a t s = Inr r"
    and filt: "(\<forall>c\<in>set a. isWhiteSpace c) \<or> (5 < length a \<and> t * 1000 < 2000)"
  shows "evaluatorCalls r = []"
    and "accuracy (evaluation (last (turns (finalState r)))) = 0"
    and "clarity (evaluation (last (turns (finalState r)))) = 0"
    and "depth (evaluation (last (turns (finalState r)))) = 0"
    and "relevance (evaluation (last (turns (finalState r)))) = 0"
    and "isFallback (evaluation (last (turns (finalState r))))"
    and "totalScore (evaluation (last (turns (finalState r)))) = 0"
    and "finalScore (evaluation (last (turns (finalState r)))) = 0"
    and "last (scoreHistory (finalState r)) = 0"
proof -
  from sub obtain q pre raw tP gP final nd
    where pre: "pre = fst (preEvaluation a t s)"
      and raw: "raw = fst (apiEvaluation ai q a pre s)"
      and calls: "evaluatorCalls r = fst (snd (apiEvaluation ai q a pre s))"
      and tP: "tP = fst (calculateTimeLogic t)"
      and gP: "gP = fst (checkSkillGap (targetSkill q) (detectedSkillGaps s))"
      and final: "final = max 0 (minus64 (minus64 (calculateScore raw) tP) gP)"
      and tn: "turns (finalState r) =
           turns s @ [makeTurn q a raw (calculateScore raw) t tP final gP
                        (currentDifficulty s) nd now]"
      and sh: "scoreHistory (finalState r) = scoreHistory s @ [final]"
    by (rule submitAnswer_fields)
  from prefilter_fires [OF filt, of s] obtain z
    where z: "fst (preEvaluation a t s) = Some z"
      and zero: "accuracy z = 0" "clarity z = 0" "depth z = 0" "relevance z = 0"
      and fb: "isFallback z"
    by blast
  have rz: "raw = z" by (simp add: raw pre z apiEvaluation_Some)
  have base: "calculateScore raw = 0"
    unfolding rz using zero by (rule calculateScore_zero)
  have "0 \<le> tP" "0 \<le> gP"
    by (simp_all add: tP gP calculateTimeLogic_nonneg checkSkillGap_nonneg)
  then have f0: "final = 0"
    unfolding final base by (rule penalised_zero)
  show "evaluatorCalls r = []" by (simp add: calls pre z apiEvaluation_Some)
  show "accuracy (evaluation (last (turns (finalState r)))) = 0"
    "clarity (evaluation (last (turns (finalState r)))) = 0"
    "depth (evaluation (last (turns (finalState r)))) = 0"
    "relevance (evaluation (last (turns (finalState r)))) = 0"
    "isFallback (evaluation (last (turns (finalState r))))"
    "totalScore (evaluation (last (turns (finalState r)))) = 0"
    "finalScore (evaluation (last (turns (finalState r)))) = 0"
    "last (scoreHistory (finalState r)) = 0"
    by (simp_all add: tn sh makeTurn_def rz zero fb base [unfolded rz] f0)
qed

lemma fold_keywordHits:
  "fold (\<lambda>kw (hits, missing). if P kw then (hits + 1, missing) else (hits, missing @ [kw]))
        ks (h, m)
   = (h + length (filter P ks), m @ filter (\<lambda>kw. \<not> P kw) ks)"
  by (induction ks arbitrary: h m) simp_all

lemma includes_str_iff: "includes_str h n \<longleftrightarrow> (\<exists>u v. h = u @ n @ v)"
proof (induction h)
  case Nil
  show ?case by auto
next
  case (Cons c cs)
  show ?case
  proof
    assume "includes_str (c # cs) n"
    then consider (here) "take (length n) (c # cs) = n" | (later) "includes_str cs n"
      by auto
    then show "\<exists>u v. c # cs = u @ n @ v"
    proof cases
      case here
      then have "c # cs = [] @ n @ drop (length n) (c # cs)"
        by (metis append_Nil append_take_drop_id)
      then show ?thesis by blast
    next
      case later
      with Cons.IH obtain u v where "cs = u @ n @ v" by blast
      then have "c # cs = (c # u) @ n @ v" by simp
      then show ?thesis by blast
    qed
  next
    assume "\<exists>u v. c # cs = u @ n @ v"
    then obtain u v where uv: "c # cs = u @ n @ v" by blast
    show "includes_str (c # cs) n"
    proof (cases u)
      case Nil
      with uv have "take (length n) (c # cs) = n" by simp
      then show ?thesis by simp
    next
      case (Cons d u')
      with uv have "cs = u' @ n @ v" by simp
      with Cons.IH have "includes_str cs n" by blast
      then show ?thesis by simp
    qed
  qed
qed

lemma startAnalysis_fields:
  "status (fst (startAnalysis s)) = ANALYZING"
  "currentDifficulty (fst (startAnalysis s)) = currentDifficulty s"
  "difficultyCeiling (fst (startAnalysis s)) = difficultyCeiling s"
  "snd (startAnalysis s) = [fst (startAnalysis s)]"
  by (simp_all add: startAnalysis_def Let_def)

lemma setGenerating_fields:
  "status (fst (setGenerating s)) = GENERATING"
  "currentDifficulty (fst (setGenerating s)) = currentDifficulty s"
  "difficultyCeiling (fst (setGenerating s)) = difficultyCeiling s"
  "snd (setGenerating s) = [fst (setGenerating s)]"
  by (simp_all add: setGenerating_def Let_def)

lemma initializeSession_fields:
  "status (fst (initializeSession jd resume s)) = IDLE"
  "currentDifficulty (fst (initializeSession jd resume s)) =
     (case map_of INITIAL (complexityLevel jd) of Some d \<Rightarrow> d | None \<Rightarrow> Easy)"
  "difficultyCeiling (fst (initializeSession jd resume s)) = difficultyCeiling s
   \<or> difficultyCeiling (fst (initializeSession jd resume s)) = Some CAP_LEVEL"
  "snd (initializeSession jd resume s) = [fst (initializeSession jd resume s)]"
  by (simp_all add: initializeSession_def Let_def)

lemma initial_difficulty_low:
  "levelIndex (case map_of INITIAL k of Some d \<Rightarrow> d | None \<Rightarrow> Easy) \<le> levelIndex CAP_LEVEL"
  by (simp add: INITIAL_def CAP_LEVEL_def)

lemma startInterview_cases:
  "startInterview q s = (s, []) \<or> startInterview q s = presentQuestion q (log STATE_SessionInitialized s)"
  by (simp add: startInterview_def)

lemma nextDifficulty_capped:
  "levelIndex (nextDifficulty current score (Some cap)) \<le> levelIndex cap"
  by (simp add: nextDifficulty_def Let_def)

lemma step_submit_cases:
  "(step (SubmitAnswer ai now a t) s = (s, []))
   \<or> (\<exists>r. submitAnswer ai now a t s = Inr r
          \<and> step (SubmitAnswer ai now a t) s = (finalState r, notified r))"
  by (cases "submitAnswer ai now a t s") simp_all

lemma step_questionInPlay:
  assumes "questionInPlay s"
  shows "questionInPlay (fst (step c s)) \<and> (\<forall>x\<in>set (snd (step c s)). questionInPlay x)"
proof (cases c)
  case StartAnalysis
  then show ?thesis
    by (simp add: questionInPlay_def startAnalysis_fields)
next
  case (InitializeSession jd resume)
  then show ?thesis
    by (simp add: questionInPlay_def initializeSession_fields)
next
  case SetGenerating
  then show ?thesis
    by (simp add: questionInPlay_def setGenerating_fields)
next
  case (StartInterview q)
  from startInterview_cases [of q s] assms show ?thesis
    unfolding StartInterview
    by (auto simp: questionInPlay_def presentQuestion_fields)
next
  case (PresentQuestion q)
  then show ?thesis
    by (simp add: questionInPlay_def presentQuestion_fields)
next
  case (SubmitAnswer ai now a t)
  from step_submit_cases [of ai now a t s]
  show ?thesis
  proof
    assume "step (SubmitAnswer ai now a t) s = (s, [])"
    with assms show ?thesis unfolding SubmitAnswer by simp
  next
    assume "\<exists>r. submitAnswer ai now a t s = Inr r
          \<and> step (SubmitAnswer ai now a t) s = (finalState r, notified r)"
    then obtain r where sub: "submitAnswer ai now a t s = Inr r"
      and stp: "step (SubmitAnswer ai now a t) s = (finalState r, notified r)"
      by blast
    from sub obtain tv cwa
      where st: "status (finalState r) =
           (if tv > MAX_VIOLATIONS_ALLOWED then TERMINATED
            else if cwa \<ge> STRIKE_LIMIT then TERMINATED
            else if length (turns s) + 1 \<ge> MAX_QUESTIONS then COMPLETED
            else GENERATING)"
        and nt: "notified r = [log (EVENT_AnswerSubmitted t) (s\<lparr>status := EVALUATING\<rparr>), finalState r]"
      by (rule submitAnswer_fields)
    have "status (finalState r) \<noteq> INTERVIEWING"
      unfolding st by simp
    then show ?thesis
      unfolding SubmitAnswer stp
      by (simp add: nt questionInPlay_def)
  qed
next
  case Reset
  then show ?thesis
    by (simp add: questionInPlay_def reset_def getInitialState_def)
qed

lemma run_invariant:
  assumes stepI: "\<And>c s. I s \<Longrightarrow> I (fst (step c s)) \<and> (\<forall>x\<in>set (snd (step c s)). I x)"
    and "I s"
  shows "I (fst (run ops s)) \<and> (\<forall>x\<in>set (snd (run ops s)). I x)"
  using assms(2)
proof (induction ops arbitrary: s)
  case Nil
  then show ?case by simp
next
  case (Cons c cs)
  from stepI [OF Cons.prems, of c]
  have a: "I (fst (step c s))" and b: "\<forall>x\<in>set (snd (step c s)). I x" by blast+
  from Cons.IH [OF a]
  have "I (fst (run cs (fst (step c s)))) \<and> (\<forall>x\<in>set (snd (run cs (fst (step c s)))). I x)" .
  with b show ?case
    by (auto simp: split_beta Let_def)
qed

lemma step_underCeiling:
  assumes "underCeiling s"
  shows "underCeiling (fst (step c s)) \<and> (\<forall>x\<in>set (snd (step c s)). underCeiling x)"
proof (cases c)
  case StartAnalysis
  with assms show ?thesis
    by (simp add: underCeiling_def startAnalysis_fields)
next
  case (InitializeSession jd resume)
  from initializeSession_fields(3) [of jd resume s] assms
  have "underCeiling (fst (initializeSession jd resume s))"
    unfolding underCeiling_def
    by (auto simp: initializeSession_fields(2) initial_difficulty_low)
  then show ?thesis
    unfolding InitializeSession by (simp add: initializeSession_fields(4))
next
  case SetGenerating
  with assms show ?thesis
    by (simp add: underCeiling_def setGenerating_fields)
next
  case (StartInterview q)
  from startInterview_cases [of q s] assms show ?thesis
    unfolding StartInterview
    by (auto simp: underCeiling_def presentQuestion_fields)
next
  case (PresentQuestion q)
  with assms show ?thesis
    by (simp add: underCeiling_def presentQuestion_fields)
next
  case (SubmitAnswer ai now a t)
  from step_submit_cases [of ai now a t s]
  show ?thesis
  proof
    assume "step (SubmitAnswer ai now a t) s = (s, [])"
    with assms show ?thesis unfolding SubmitAnswer by simp
  next
    assume "\<exists>r. submitAnswer ai now a t s = Inr r
          \<and> step (SubmitAnswer ai now a t) s = (finalState r, notified r)"
    then obtain r where sub: "submitAnswer ai now a t s = Inr r"
      and stp: "step (SubmitAnswer ai now a t) s = (finalState r, notified r)"
      by blast
    from sub obtain final nd
      where nd: "nd = nextDifficulty (currentDifficulty s) final (difficultyCeiling s)"
        and cd: "currentDifficulty (finalState r) = nd"
        and dc: "difficultyCeiling (finalState r) = difficultyCeiling s"
        and nt: "notified r = [log (EVENT_AnswerSubmitted t) (s\<lparr>status := EVALUATING\<rparr>), finalState r]"
      by (rule submitAnswer_fields)
    have "underCeiling (finalState r)"
      using assms unfolding underCeiling_def dc cd nd
      by (auto simp: nextDifficulty_capped)
    moreover have "underCeiling (log (EVENT_AnswerSubmitted t) (s\<lparr>status := EVALUATING\<rparr>))"
      using assms by (simp add: underCeiling_def)
    ultimately show ?thesis
      unfolding SubmitAnswer stp by (simp add: nt)
  qed
next
  case Reset
  then show ?thesis
    by (simp add: underCeiling_def reset_def getInitialState_def)
qed

lemma visible_questionInPlay: "\<forall>x\<in>set (visibleStates ops). questionInPlay x"
proof -
  have "questionInPlay getInitialState"
    by (simp add: questionInPlay_def getInitialState_def)
  from run_invariant [of questionInPlay, OF step_questionInPlay this, of ops]
  show ?thesis by (simp add: visibleStates_def)
qed

lemma visible_underCeiling: "\<forall>x\<in>set (visibleStates ops). underCeiling x"
proof -
  have "underCeiling getInitialState"
    by (simp add: underCeiling_def getInitialState_def)
  from run_invariant [of underCeiling, OF step_underCeiling this, of ops]
  show ?thesis by (simp add: visibleStates_def)
qed

lemma fold_frame:
  assumes "\<forall>cb\<in>set cbs. \<forall>h. cb r h r = h r"
  shows "fold (\<lambda>cb h. cb r h) cbs h0 r = h0 r"
  using assms by (induction cbs arbitrary: h0) simp_all

lemma blankAnswer_blank: "\<forall>c\<in>set blankAnswer. isWhiteSpace c"
  by (simp add: blankAnswer_def isWhiteSpace_def)

lemma plainAnswer_long: "5 < length plainAnswer"
  by (simp add: plainAnswer_def)

lemma plainAnswer_not_blank: "\<not> (\<forall>c\<in>set plainAnswer. isWhiteSpace c)"
  by (simp add: plainAnswer_def isWhiteSpace_def)

lemma fourTurns_run:
  "(let s = fst (run fourTurns getInitialState)
    in status s = INTERVIEWING \<and> activeQuestion s = Some sampleQuestion
       \<and> timeViolations s = 2 \<and> consecutiveWeakAnswers s = 2 \<and> length (turns s) = 4)"
  by code_simp

lemma fourTurns_state:
  "status (fst (run fourTurns getInitialState)) = INTERVIEWING"
  "activeQuestion (fst (run fourTurns getInitialState)) = Some sampleQuestion"
  "timeViolations (fst (run fourTurns getInitialState)) = 2"
  "consecutiveWeakAnswers (fst (run fourTurns getInitialState)) = 2"
  "length (turns (fst (run fourTurns getInitialState))) = 4"
  using fourTurns_run unfolding Let_def by blast+

lemma twoOverruns_run:
  "(let s = fst (run twoOverruns getInitialState)
    in status s = INTERVIEWING \<and> activeQuestion s = Some sampleQuestion
       \<and> timeViolations s = 2)"
  by code_simp

lemma twoOverruns_state:
  "status (fst (run twoOverruns getInitialState)) = INTERVIEWING"
  "activeQuestion (fst (run twoOverruns getInitialState)) = Some sampleQuestion"
  "timeViolations (fst (run twoOverruns getInitialState)) = 2"
  using twoOverruns_run unfolding Let_def by blast+

lemma cappedSession_run:
  "(let s = fst (run cappedSession getInitialState)
    in difficultyCeiling s = Some Medium \<and> finalScore (evaluation (last (turns s))) = 9)"
  by code_simp

lemma cappedSession_state:
  "difficultyCeiling (fst (run cappedSession getInitialState)) = Some Medium"
  "finalScore (evaluation (last (turns (fst (run cappedSession getInitialState))))) = 9"
  using cappedSession_run unfolding Let_def by blast+

lemma firstSubmission_run:
  "(let vs = visibleStates firstSubmission
    in length vs = 4 \<and> status (vs ! 1) = INTERVIEWING)"
  by code_simp

lemma firstSubmission_seen:
  "length (visibleStates firstSubmission) = 4"
  "status (visibleStates firstSubmission ! 1) = INTERVIEWING"
  using firstSubmission_run unfolding Let_def by blast+

subsection \<open>The score in doubles and in exact arithmetic\<close>

lemma double_nonneg:
  assumes "0 \<le> x"
  shows "0 \<le> double x"
proof (cases "x = 0")
  case True
  then show ?thesis by simp
next
  case False
  with assms have pos: "\<not> x < 0" by simp
  define u :: real where "u = 2 powi (max (ilog2 \<bar>x\<bar>) (- 1022) - 52)"
  have u: "0 < u" by (simp add: u_def)
  then have "0 \<le> \<bar>x\<bar> / u" by simp
  then have "0 \<le> roundEven (\<bar>x\<bar> / u)" by (rule roundEven_nonneg)
  then have "0 \<le> of_int (roundEven (\<bar>x\<bar> / u)) * u" using u by simp
  then show ?thesis
    using pos False by (simp add: double_def Let_def u_def)
qed

lemma calculateScore_weightedSum64:
  "calculateScore c = double (toFixed 2 (weightedSum64 c))"
  by (simp add: calculateScore_def weightedSum64_def policy Let_def)

lemma weighted_product_nonneg:
  assumes "0 \<le> v" and "0 \<le> w"
  shows "0 \<le> times64 (double v) (double w)"
  unfolding times64_def using assms
  by (intro double_nonneg mult_nonneg_nonneg)

lemma weightedSum64_nonneg:
  assumes "0 \<le> accuracy c" and "0 \<le> depth c" and "0 \<le> clarity c" and "0 \<le> relevance c"
  shows "0 \<le> weightedSum64 c"
  unfolding weightedSum64_def plus64_def using assms
  by (intro double_nonneg add_nonneg_nonneg weighted_product_nonneg) simp_all

lemma weightedSum64_near:
  assumes "0 \<le> accuracy c" and "accuracy c \<le> 10"
    and "0 \<le> depth c" and "depth c \<le> 10"
    and "0 \<le> clarity c" and "clarity c \<le> 10"
    and "0 \<le> relevance c" and "relevance c \<le> 10"
  shows "\<bar>weightedSum64 c - weightedSum c\<bar> \<le> 55 / 2 ^ 47"
proof -
  define p1 where "p1 = times64 (double (accuracy c)) (double 0.40)"
  define p2 where "p2 = times64 (double (depth c)) (double 0.30)"
  define p3 where "p3 = times64 (double (clarity c)) (double 0.15)"
  define p4 where "p4 = times64 (double (relevance c)) (double 0.15)"
  have e1: "\<bar>p1 - accuracy c * 0.40\<bar> \<le> 13 / 2 ^ 47"
    unfolding p1_def using assms by (intro weighted_product_near) simp_all
  have e2: "\<bar>p2 - depth c * 0.30\<bar> \<le> 13 / 2 ^ 47"
    unfolding p2_def using assms by (intro weighted_product_near) simp_all
  have e3: "\<bar>p3 - clarity c * 0.15\<bar> \<le> 13 / 2 ^ 47"
    unfolding p3_def using assms by (intro weighted_product_near) simp_all
  have e4: "\<bar>p4 - relevance c * 0.15\<bar> \<le> 13 / 2 ^ 47"
    unfolding p4_def using assms by (intro weighted_product_near) simp_all
  have s1: "\<bar>plus64 p1 p2 - (accuracy c * 0.40 + depth c * 0.30)\<bar>
      \<le> 13 / 2 ^ 47 + 13 / 2 ^ 47 + 1 / 2 ^ 47"
  proof (rule sum_near [OF e1 e2])
    show "\<bar>accuracy c * 0.40 + depth c * 0.30\<bar> \<le> 20"
      using assms by (simp add: abs_le_iff)
  qed simp
  have s2: "\<bar>plus64 (plus64 p1 p2) p3 - (accuracy c * 0.40 + depth c * 0.30 + clarity c * 0.15)\<bar>
      \<le> (13 / 2 ^ 47 + 13 / 2 ^ 47 + 1 / 2 ^ 47) + 13 / 2 ^ 47 + 1 / 2 ^ 47"
  proof (rule sum_near [OF s1 e3])
    show "\<bar>accuracy c * 0.40 + depth c * 0.30 + clarity c * 0.15\<bar> \<le> 20"
      using assms by (simp add: abs_le_iff)
  qed simp
  have s3: "\<bar>plus64 (plus64 (plus64 p1 p2) p3) p4
        - (accuracy c * 0.40 + depth c * 0.30 + clarity c * 0.15 + relevance c * 0.15)\<bar>
      \<le> ((13 / 2 ^ 47 + 13 / 2 ^ 47 + 1 / 2 ^ 47) + 13 / 2 ^ 47 + 1 / 2 ^ 47)
          + 13 / 2 ^ 47 + 1 / 2 ^ 47"
  proof (rule sum_near [OF s2 e4])
    show "\<bar>accuracy c * 0.40 + depth c * 0.30 + clarity c * 0.15 + relevance c * 0.15\<bar> \<le> 20"
      using assms by (simp add: abs_le_iff)
  qed simp
  then show ?thesis
    unfolding weightedSum64_def weightedSum_def p1_def p2_def p3_def p4_def by simp
qed

lemma weightedSum_range:
  assumes "0 \<le> accuracy c" and "accuracy c \<le> 10"
    and "0 \<le> depth c" and "depth c \<le> 10"
    and "0 \<le> clarity c" and "clarity c \<le> 10"
    and "0 \<le> relevance c" and "relevance c \<le> 10"
  shows "0 \<le> weightedSum c" and "weightedSum c \<le> 10"
  using assms by (simp_all add: weightedSum_def)

lemma calculateScore_near:
  assumes "0 \<le> accuracy c" and "accuracy c \<le> 10"
    and "0 \<le> depth c" and "depth c \<le> 10"
    and "0 \<le> clarity c" and "clarity c \<le> 10"
    and "0 \<le> relevance c" and "relevance c \<le> 10"
  shows "\<bar>calculateScore c - weightedSum c\<bar> \<le> 1 / 200 + 1 / 10 ^ 12"
proof -
  have s: "\<bar>weightedSum64 c - weightedSum c\<bar> \<le> 55 / 2 ^ 47"
    using assms by (rule weightedSum64_near)
  have r: "0 \<le> weightedSum c" "weightedSum c \<le> 10"
    using assms by (rule weightedSum_range)+
  have t: "\<bar>toFixed 2 (weightedSum64 c) - weightedSum64 c\<bar> \<le> 1 / 200"
    by (rule toFixed_2_near(1))
  have k: "(55::real) / 2 ^ 47 \<le> 1" by simp
  from s r t k have "\<bar>toFixed 2 (weightedSum64 c)\<bar> \<le> 32" by linarith
  then have d: "\<bar>double (toFixed 2 (weightedSum64 c)) - toFixed 2 (weightedSum64 c)\<bar> \<le> 1 / 2 ^ 47"
    by (rule double_near)
  have "\<bar>calculateScore c - weightedSum c\<bar> \<le> 1 / 200 + 55 / 2 ^ 47 + 1 / 2 ^ 47"
    unfolding calculateScore_weightedSum64 using s t d by linarith
  also have "\<dots> \<le> 1 / 200 + 1 / 10 ^ 12" by simp
  finally show ?thesis .
qed

lemma calculateScore_grid: "\<exists>k::int. calculateScore c = double (of_int k / 100)"
proof -
  from toFixed_2_near(2) [of "weightedSum64 c"]
  obtain k :: int where "toFixed 2 (weightedSum64 c) = of_int k / 100" ..
  then have "calculateScore c = double (of_int k / 100)"
    by (simp only: calculateScore_weightedSum64)
  then show ?thesis ..
qed

lemma calculateScore_exact:
  assumes "0 \<le> accuracy c" and "accuracy c \<le> 10"
    and "0 \<le> depth c" and "depth c \<le> 10"
    and "0 \<le> clarity c" and "clarity c \<le> 10"
    and "0 \<le> relevance c" and "relevance c \<le> 10"
    and lo: "1 / 10 ^ 10 \<le> frac (weightedSum c * 100 + 1 / 2)"
    and hi: "frac (weightedSum c * 100 + 1 / 2) \<le> 1 - 1 / 10 ^ 10"
  shows "calculateScore c = double (roundedWeightedSum c)"
proof -
  define n where "n = \<lfloor>weightedSum c * 100 + 1 / 2\<rfloor>"
  have s: "\<bar>weightedSum64 c - weightedSum c\<bar> \<le> 55 / 2 ^ 47"
    using assms(1-8) by (rule weightedSum64_near)
  have k: "(5500::real) / 2 ^ 47 < 1 / 10 ^ 10" by simp
  from s have s100: "\<bar>weightedSum64 c * 100 - weightedSum c * 100\<bar> \<le> 5500 / 2 ^ 47"
    by linarith
  have fr: "frac (weightedSum c * 100 + 1 / 2) = weightedSum c * 100 + 1 / 2 - of_int n"
    by (simp add: frac_def n_def)
  from lo hi s100 k have "of_int n \<le> weightedSum64 c * 100 + 1 / 2"
    and "weightedSum64 c * 100 + 1 / 2 < of_int n + 1"
    unfolding fr by linarith+
  then have fl: "\<lfloor>weightedSum64 c * 100 + 1 / 2\<rfloor> = n"
    by (simp add: floor_eq_iff)
  have p64: "\<not> weightedSum64 c < 0"
    using weightedSum64_nonneg [of c] assms by simp
  have p: "\<not> weightedSum c < 0"
    using weightedSum_range(1) [of c] assms by simp
  have "toFixed 2 (weightedSum64 c) = of_int n / 100"
    using p64 fl by (simp add: toFixed_def)
  moreover have "roundedWeightedSum c = of_int n / 100"
    using p by (simp add: roundedWeightedSum_def toFixed_def n_def)
  ultimately show ?thesis
    by (simp only: calculateScore_weightedSum64)
qed

lemma final_near:
  assumes "\<bar>b - t\<bar> \<le> 31" and "\<bar>b - t - g\<bar> \<le> 31"
  shows "\<bar>max 0 (minus64 (minus64 b t) g) - max 0 (b - t - g)\<bar> \<le> 2 / 2 ^ 47"
proof -
  have k: "(1::real) / 2 ^ 47 \<le> 1" by simp
  from assms(1) have "\<bar>b - t\<bar> \<le> 32" by simp
  then have m1: "\<bar>minus64 b t - (b - t)\<bar> \<le> 1 / 2 ^ 47"
    unfolding minus64_def by (rule double_near)
  with assms(2) k have "\<bar>minus64 b t - g\<bar> \<le> 32" by linarith
  then have m2: "\<bar>minus64 (minus64 b t) g - (minus64 b t - g)\<bar> \<le> 1 / 2 ^ 47"
    unfolding minus64_def [of _ g] by (rule double_near)
  from m1 m2 show ?thesis by linarith
qed

lemma calculateFinalAverage_rounds_down:
  "calculateFinalAverage (getInitialState\<lparr>scoreHistory := [double 4.01, 4]\<rparr>) = 4"
  by code_simp

lemma score_at_low_midpoint:
  "calculateScore \<lparr>accuracy = 0, clarity = 0.5, depth = 0, relevance = 0\<rparr> = double 0.07"
  by code_simp

lemma score_at_high_midpoint:
  "calculateScore \<lparr>accuracy = 8, clarity = 7.5, depth = 8, relevance = 8\<rparr> = double 7.92"
  by code_simp

lemma score_above_midpoint:
  "(let x = calculateScore
              \<lparr>accuracy = 8, clarity = 7.500000000000001, depth = 8, relevance = 8\<rparr>;
        y = weightedSum
              \<lparr>accuracy = 8, clarity = 7.500000000000001, depth = 8, relevance = 8\<rparr>
    in x = double 7.92 \<and> 7.925 < y \<and> 1 / 200 < y - x)"
  by code_simp

lemma midpoints_exact:
  "weightedSum \<lparr>accuracy = 0, clarity = 0.5, depth = 0, relevance = 0\<rparr> = 0.075"
  "roundedWeightedSum \<lparr>accuracy = 0, clarity = 0.5, depth = 0, relevance = 0\<rparr> = 0.08"
  "weightedSum \<lparr>accuracy = 8, clarity = 7.5, depth = 8, relevance = 8\<rparr> = 7.925"
  "roundedWeightedSum \<lparr>accuracy = 8, clarity = 7.5, depth = 8, relevance = 8\<rparr> = 7.93"
  "double 0.07 < 0.075" "double 7.92 < 7.925"
  by code_simp+

section \<open>The claims\<close>


text \<open>
  Claim C1, as amended. In every state a session reaches from the initial state through
  the public operations, and in every state shown to the subscribers on the way, status
  \<^verbatim>\<open>INTERVIEWING\<close> comes with an active question: \<^verbatim>\<open>presentQuestion\<close> leaves both
  set and shows them together. A completed \<^verbatim>\<open>submitAnswer\<close> leaves no active question
  and one of the statuses \<^verbatim>\<open>GENERATING\<close>, \<^verbatim>\<open>COMPLETED\<close>, \<^verbatim>\<open>TERMINATED\<close>; the state it
  shows first is the submitted one with status \<^verbatim>\<open>EVALUATING\<close>, the question still in
  place.
\<close>

theorem interviewing_has_question:
  "(\<forall>x\<in>set (visibleStates ops). status x = INTERVIEWING \<longrightarrow> activeQuestion x \<noteq> None)
   \<and> status (fst (presentQuestion q s)) = INTERVIEWING
   \<and> activeQuestion (fst (presentQuestion q s)) = Some q
   \<and> snd (presentQuestion q s) = [fst (presentQuestion q s)]
   \<and> (submitAnswer ai now a t s = Inr r \<longrightarrow>
        activeQuestion (finalState r) = None
        \<and> status (finalState r) \<in> {GENERATING, COMPLETED, TERMINATED}
        \<and> notified r = [log (EVENT_AnswerSubmitted t) (s\<lparr>status := EVALUATING\<rparr>), finalState r])"
proof -
  have reach: "\<forall>x\<in>set (visibleStates ops). status x = INTERVIEWING \<longrightarrow> activeQuestion x \<noteq> None"
    using visible_questionInPlay [of ops] unfolding questionInPlay_def .
  have sub: "submitAnswer ai now a t s = Inr r \<longrightarrow>
        activeQuestion (finalState r) = None
        \<and> status (finalState r) \<in> {GENERATING, COMPLETED, TERMINATED}
        \<and> notified r = [log (EVENT_AnswerSubmitted t) (s\<lparr>status := EVALUATING\<rparr>), finalState r]"
  proof
    assume "submitAnswer ai now a t s = Inr r"
    then obtain tv cwa
      where st: "status (finalState r) =
           (if tv > MAX_VIOLATIONS_ALLOWED then TERMINATED
            else if cwa \<ge> STRIKE_LIMIT then TERMINATED
            else if length (turns s) + 1 \<ge> MAX_QUESTIONS then COMPLETED
            else GENERATING)"
        and aq: "activeQuestion (finalState r) = None"
        and nt: "notified r = [log (EVENT_AnswerSubmitted t) (s\<lparr>status := EVALUATING\<rparr>), finalState r]"
      by (rule submitAnswer_fields)
    have "status (finalState r) \<in> {GENERATING, COMPLETED, TERMINATED}"
      unfolding st by simp
    with aq nt show "activeQuestion (finalState r) = None
        \<and> status (finalState r) \<in> {GENERATING, COMPLETED, TERMINATED}
        \<and> notified r = [log (EVENT_AnswerSubmitted t) (s\<lparr>status := EVALUATING\<rparr>), finalState r]"
      by blast
  qed
  from reach sub presentQuestion_fields(1,2,9) [of q s] show ?thesis by blast
qed

theorem interviewing_has_question_witness:
  "status (visibleStates firstSubmission ! 1) = INTERVIEWING
   \<and> activeQuestion (visibleStates firstSubmission ! 1) \<noteq> None"
proof -
  have m: "visibleStates firstSubmission ! 1 \<in> set (visibleStates firstSubmission)"
    by (rule nth_mem) (simp add: firstSubmission_seen(1))
  from interviewing_has_question [of firstSubmission] m firstSubmission_seen(2)
  have "activeQuestion (visibleStates firstSubmission ! 1) \<noteq> None"
    by blast
  with firstSubmission_seen(2) show ?thesis by blast
qed

text \<open>
  The converse of C1 fails in an ordinary session: the second notification of the first
  submission shows status \<^verbatim>\<open>EVALUATING\<close> with the question still active.
\<close>

theorem question_active_while_evaluating:
  "status (visibleStates firstSubmission ! 2) = EVALUATING
   \<and> status (visibleStates firstSubmission ! 2) \<noteq> INTERVIEWING
   \<and> activeQuestion (visibleStates firstSubmission ! 2) = Some sampleQuestion
   \<and> activeQuestion (visibleStates firstSubmission ! 2) \<noteq> None"
proof -
  have "(let x = visibleStates firstSubmission ! 2
         in status x = EVALUATING \<and> activeQuestion x = Some sampleQuestion)"
    by code_simp
  then show ?thesis unfolding Let_def by simp
qed

text \<open>
  Claim C2. After a completed \<^verbatim>\<open>submitAnswer\<close> the status follows the counters of the
  state it leaves, first match winning: more than 2 time violations end the session as
  \<^verbatim>\<open>TERMINATED\<close> with the reason citing the violation count; otherwise 3 or more strikes
  end it as \<^verbatim>\<open>TERMINATED\<close> with the reason citing the strike count; otherwise 5 or more
  turns end it as \<^verbatim>\<open>COMPLETED\<close>; otherwise it goes on as \<^verbatim>\<open>GENERATING\<close>.
\<close>

theorem termination_priority:
  assumes "submitAnswer ai now a t s = Inr r"
  shows "MAX_VIOLATIONS_ALLOWED = 2 \<and> STRIKE_LIMIT = 3 \<and> MAX_QUESTIONS = 5
    \<and> (2 < timeViolations (finalState r) \<longrightarrow>
          status (finalState r) = TERMINATED
          \<and> terminationReason (finalState r) =
              Some (''Time Management Failure: '' @ showNat (timeViolations (finalState r))
                    @ '' violations exceeded limit of 2.''))
    \<and> (\<not> 2 < timeViolations (finalState r) \<and> 3 \<le> consecutiveWeakAnswers (finalState r) \<longrightarrow>
          status (finalState r) = TERMINATED
          \<and> terminationReason (finalState r) =
              Some (''Performance Threshold Reached: ''
                    @ showNat (consecutiveWeakAnswers (finalState r)) @ '' consecutive strikes.''))
    \<and> (\<not> 2 < timeViolations (finalState r) \<and> \<not> 3 \<le> consecutiveWeakAnswers (finalState r)
          \<and> 5 \<le> length (turns (finalState r)) \<longrightarrow>
          status (finalState r) = COMPLETED)
    \<and> (\<not> 2 < timeViolations (finalState r) \<and> \<not> 3 \<le> consecutiveWeakAnswers (finalState r)
          \<and> \<not> 5 \<le> length (turns (finalState r)) \<longrightarrow>
          status (finalState r) = GENERATING)"
proof -
  from assms obtain q raw tP gP final nd tv cwa
    where st: "status (finalState r) =
           (if tv > MAX_VIOLATIONS_ALLOWED then TERMINATED
            else if cwa \<ge> STRIKE_LIMIT then TERMINATED
            else if length (turns s) + 1 \<ge> MAX_QUESTIONS then COMPLETED
            else GENERATING)"
      and tr: "terminationReason (finalState r) =
           (if tv > MAX_VIOLATIONS_ALLOWED then Some (violationReason tv)
            else if cwa \<ge> STRIKE_LIMIT then Some (strikeReason cwa)
            else terminationReason s)"
      and tn: "turns (finalState r) =
           turns s @ [makeTurn q a raw (calculateScore raw) t tP final gP
                        (currentDifficulty s) nd now]"
      and cw: "consecutiveWeakAnswers (finalState r) = cwa"
      and tv: "timeViolations (finalState r) = tv"
    by (rule submitAnswer_fields)
  have len: "length (turns (finalState r)) = length (turns s) + 1"
    by (simp add: tn)
  show ?thesis
    unfolding tv cw len st tr
    by (simp add: policy violationReason_eq strikeReason_def)
qed

theorem termination_priority_witness:
  "\<exists>r. submitAnswer noService 5 [] 61 (fst (run fourTurns getInitialState)) = Inr r
       \<and> timeViolations (finalState r) = 3
       \<and> consecutiveWeakAnswers (finalState r) = 4
       \<and> length (turns (finalState r)) = 5
       \<and> status (finalState r) = TERMINATED
       \<and> terminationReason (finalState r) =
            Some ''Time Management Failure: 3 violations exceeded limit of 2.''"
proof -
  define r where "r = projr (submitAnswer noService 5 [] 61 (fst (run fourTurns getInitialState)))"
  have sub: "submitAnswer noService 5 [] 61 (fst (run fourTurns getInitialState)) = Inr r"
    unfolding r_def
    by (rule projr_Inr [OF submitAnswer_succeeds [OF fourTurns_state(2,1)]])
  have "(let x = finalState r
         in timeViolations x = 3 \<and> consecutiveWeakAnswers x = 4 \<and> length (turns x) = 5)"
    unfolding r_def by code_simp
  then have tv: "timeViolations (finalState r) = 3"
    and cw: "consecutiveWeakAnswers (finalState r) = 4"
    and ln: "length (turns (finalState r)) = 5"
    unfolding Let_def by blast+
  from termination_priority [OF sub] tv
  have "status (finalState r) = TERMINATED
        \<and> terminationReason (finalState r) =
            Some (''Time Management Failure: '' @ showNat 3 @ '' violations exceeded limit of 2.'')"
    by simp
  then have "status (finalState r) = TERMINATED
        \<and> terminationReason (finalState r) =
            Some ''Time Management Failure: 3 violations exceeded limit of 2.''"
    by (simp add: showNat_3)
  with sub tv cw ln show ?thesis by blast
qed



text \<open>
  Claim C4. A completed \<^verbatim>\<open>submitAnswer\<close> whose final score is at most 2.0 adds 2 strikes
  to the counter of consecutive weak answers; otherwise one whose final score is at most
  4.5 adds exactly 1; otherwise the counter is 0 afterwards. So two weak, not critical,
  answers in a row raise the counter by 2, and a following answer above 4.5 leaves it at 0.
\<close>

theorem strike_accounting:
  "CRITICAL_FAIL_SCORE = 2 \<and> WEAK_SCORE = 4.5 \<and> CRITICAL_FAIL_STRIKES = 2
   \<and> (submitAnswer ai now a t s = Inr r \<longrightarrow>
        consecutiveWeakAnswers (finalState r) =
          (if finalScore (evaluation (last (turns (finalState r)))) \<le> 2
           then consecutiveWeakAnswers s + 2
           else if finalScore (evaluation (last (turns (finalState r)))) \<le> 4.5
           then consecutiveWeakAnswers s + 1
           else 0))
   \<and> (submitAnswer ai1 now1 a1 t1 s = Inr r1
        \<and> 2 < finalScore (evaluation (last (turns (finalState r1))))
        \<and> finalScore (evaluation (last (turns (finalState r1)))) \<le> 4.5
        \<and> submitAnswer ai2 now2 a2 t2 (fst (presentQuestion q2 (finalState r1))) = Inr r2
        \<and> 2 < finalScore (evaluation (last (turns (finalState r2))))
        \<and> finalScore (evaluation (last (turns (finalState r2)))) \<le> 4.5
        \<and> submitAnswer ai3 now3 a3 t3 (fst (presentQuestion q3 (finalState r2))) = Inr r3
        \<and> 4.5 < finalScore (evaluation (last (turns (finalState r3))))
        \<longrightarrow> consecutiveWeakAnswers (finalState r2) = consecutiveWeakAnswers s + 2
            \<and> consecutiveWeakAnswers (finalState r3) = 0)"
proof -
  have pc: "CRITICAL_FAIL_SCORE = 2 \<and> WEAK_SCORE = 4.5 \<and> CRITICAL_FAIL_STRIKES = 2"
    by (simp add: policy)
  have one: "submitAnswer ai now a t s = Inr r \<longrightarrow>
        consecutiveWeakAnswers (finalState r) =
          (if finalScore (evaluation (last (turns (finalState r)))) \<le> 2
           then consecutiveWeakAnswers s + 2
           else if finalScore (evaluation (last (turns (finalState r)))) \<le> 4.5
           then consecutiveWeakAnswers s + 1
           else 0)"
    by (auto dest: submitAnswer_strikes)
  have three: "submitAnswer ai1 now1 a1 t1 s = Inr r1
        \<and> 2 < finalScore (evaluation (last (turns (finalState r1))))
        \<and> finalScore (evaluation (last (turns (finalState r1)))) \<le> 4.5
        \<and> submitAnswer ai2 now2 a2 t2 (fst (presentQuestion q2 (finalState r1))) = Inr r2
        \<and> 2 < finalScore (evaluation (last (turns (finalState r2))))
        \<and> finalScore (evaluation (last (turns (finalState r2)))) \<le> 4.5
        \<and> submitAnswer ai3 now3 a3 t3 (fst (presentQuestion q3 (finalState r2))) = Inr r3
        \<and> 4.5 < finalScore (evaluation (last (turns (finalState r3))))
        \<longrightarrow> consecutiveWeakAnswers (finalState r2) = consecutiveWeakAnswers s + 2
            \<and> consecutiveWeakAnswers (finalState r3) = 0"
  proof
    assume h: "submitAnswer ai1 now1 a1 t1 s = Inr r1
        \<and> 2 < finalScore (evaluation (last (turns (finalState r1))))
        \<and> finalScore (evaluation (last (turns (finalState r1)))) \<le> 4.5
        \<and> submitAnswer ai2 now2 a2 t2 (fst (presentQuestion q2 (finalState r1))) = Inr r2
        \<and> 2 < finalScore (evaluation (last (turns (finalState r2))))
        \<and> finalScore (evaluation (last (turns (finalState r2)))) \<le> 4.5
        \<and> submitAnswer ai3 now3 a3 t3 (fst (presentQuestion q3 (finalState r2))) = Inr r3
        \<and> 4.5 < finalScore (evaluation (last (turns (finalState r3))))"
    from h submitAnswer_strikes [of ai1 now1 a1 t1 s r1]
    have c1: "consecutiveWeakAnswers (finalState r1) = consecutiveWeakAnswers s + 1"
      by simp
    from h submitAnswer_strikes [of ai2 now2 a2 t2 "fst (presentQuestion q2 (finalState r1))" r2]
    have c2: "consecutiveWeakAnswers (finalState r2) = consecutiveWeakAnswers s + 2"
      by (simp add: presentQuestion_fields c1)
    from h submitAnswer_strikes [of ai3 now3 a3 t3 "fst (presentQuestion q3 (finalState r2))" r3]
    have c3: "consecutiveWeakAnswers (finalState r3) = 0"
      by simp
    from c2 c3 show "consecutiveWeakAnswers (finalState r2) = consecutiveWeakAnswers s + 2
            \<and> consecutiveWeakAnswers (finalState r3) = 0"
      by simp
  qed
  from pc one three show ?thesis by blast
qed

theorem strike_accounting_witness:
  "\<exists>r1 r2 r3.
      submitAnswer weakService 1 plainAnswer 30 sessionAtQuestion = Inr r1
    \<and> finalScore (evaluation (last (turns (finalState r1)))) = 4
    \<and> submitAnswer weakService 2 plainAnswer 30
          (fst (presentQuestion sampleQuestion (finalState r1))) = Inr r2
    \<and> finalScore (evaluation (last (turns (finalState r2)))) = 4
    \<and> submitAnswer strongService 3 plainAnswer 30
          (fst (presentQuestion sampleQuestion (finalState r2))) = Inr r3
    \<and> finalScore (evaluation (last (turns (finalState r3)))) = 9
    \<and> consecutiveWeakAnswers (finalState r2) = 2
    \<and> consecutiveWeakAnswers (finalState r3) = 0"
proof -
  define r1 where "r1 = projr (submitAnswer weakService 1 plainAnswer 30 sessionAtQuestion)"
  define r2 where "r2 = projr (submitAnswer weakService 2 plainAnswer 30
          (fst (presentQuestion sampleQuestion (finalState r1))))"
  define r3 where "r3 = projr (submitAnswer strongService 3 plainAnswer 30
          (fst (presentQuestion sampleQuestion (finalState r2))))"
  have s1: "submitAnswer weakService 1 plainAnswer 30 sessionAtQuestion = Inr r1"
    unfolding r1_def
    by (rule projr_Inr [OF submitAnswer_succeeds [OF sessionAtQuestion_fields(1,2)]])
  have s2: "submitAnswer weakService 2 plainAnswer 30
          (fst (presentQuestion sampleQuestion (finalState r1))) = Inr r2"
    unfolding r2_def by (rule projr_Inr [OF submitAnswer_presented])
  have s3: "submitAnswer strongService 3 plainAnswer 30
          (fst (presentQuestion sampleQuestion (finalState r2))) = Inr r3"
    unfolding r3_def by (rule projr_Inr [OF submitAnswer_presented])
  have "(let x1 = projr (submitAnswer weakService 1 plainAnswer 30 sessionAtQuestion);
             x2 = projr (submitAnswer weakService 2 plainAnswer 30
                    (fst (presentQuestion sampleQuestion (finalState x1))));
             x3 = projr (submitAnswer strongService 3 plainAnswer 30
                    (fst (presentQuestion sampleQuestion (finalState x2))))
         in finalScore (evaluation (last (turns (finalState x1)))) = 4
          \<and> finalScore (evaluation (last (turns (finalState x2)))) = 4
          \<and> finalScore (evaluation (last (turns (finalState x3)))) = 9)"
    by code_simp
  then have f1: "finalScore (evaluation (last (turns (finalState r1)))) = 4"
    and f2: "finalScore (evaluation (last (turns (finalState r2)))) = 4"
    and f3: "finalScore (evaluation (last (turns (finalState r3)))) = 9"
    unfolding Let_def r3_def r2_def r1_def by blast+
  from strike_accounting [where s = sessionAtQuestion and ?ai1.0 = weakService and ?now1.0 = 1
      and ?a1.0 = plainAnswer and ?t1.0 = 30 and ?r1.0 = r1
      and ?ai2.0 = weakService and ?now2.0 = 2 and ?a2.0 = plainAnswer and ?t2.0 = 30
      and ?q2.0 = sampleQuestion and ?r2.0 = r2
      and ?ai3.0 = strongService and ?now3.0 = 3 and ?a3.0 = plainAnswer and ?t3.0 = 30
      and ?q3.0 = sampleQuestion and ?r3.0 = r3]
    s1 s2 s3 f1 f2 f3
  have "consecutiveWeakAnswers (finalState r2) = consecutiveWeakAnswers sessionAtQuestion + 2
      \<and> consecutiveWeakAnswers (finalState r3) = 0"
    by simp
  then have "consecutiveWeakAnswers (finalState r2) = 2
      \<and> consecutiveWeakAnswers (finalState r3) = 0"
    by (simp add: sessionAtQuestion_fields)
  with s1 s2 s3 f1 f2 f3 show ?thesis by blast
qed

text \<open>
  Claim C5. Without a ceiling the next difficulty is one level up for a score of at
  least 8.0, staying at Hard; one level down for a score of at most 4.5, staying at Easy;
  and unchanged in between. With a ceiling the result is the ceiling where the level so
  computed lies above it, and never lies above the ceiling. \<^verbatim>\<open>submitAnswer\<close> sets the
  current difficulty to that result and keeps the ceiling, and in every state seen in a
  session a ceiling that is set bounds the current difficulty.
\<close>

theorem difficulty_transition:
  "STRONG_SCORE = 8.0 \<and> WEAK_SCORE = 4.5
   \<and> (8.0 \<le> score \<longrightarrow>
        levelIndex (nextDifficulty current score None) = min 2 (levelIndex current + 1))
   \<and> (score \<le> 4.5 \<longrightarrow>
        levelIndex (nextDifficulty current score None) = levelIndex current - 1)
   \<and> (4.5 < score \<and> score < 8.0 \<longrightarrow> nextDifficulty current score None = current)
   \<and> nextDifficulty current score (Some cap) =
        (if levelIndex cap < levelIndex (nextDifficulty current score None) then cap
         else nextDifficulty current score None)
   \<and> levelIndex (nextDifficulty current score (Some cap)) \<le> levelIndex cap
   \<and> (submitAnswer ai now a t s = Inr r \<longrightarrow>
        difficultyCeiling (finalState r) = difficultyCeiling s
        \<and> currentDifficulty (finalState r) =
            nextDifficulty (currentDifficulty s)
              (finalScore (evaluation (last (turns (finalState r))))) (difficultyCeiling s))
   \<and> (\<forall>x\<in>set (visibleStates ops). \<forall>c.
        difficultyCeiling x = Some c \<longrightarrow> levelIndex (currentDifficulty x) \<le> levelIndex c)"
proof -
  have pc: "STRONG_SCORE = 8.0 \<and> WEAK_SCORE = 4.5" by (simp add: policy)
  have up: "8.0 \<le> score \<longrightarrow>
        levelIndex (nextDifficulty current score None) = min 2 (levelIndex current + 1)"
    by (cases current) (simp_all add: nextDifficulty_def policy)
  have down: "score \<le> 4.5 \<longrightarrow>
        levelIndex (nextDifficulty current score None) = levelIndex current - 1"
    by (cases current) (simp_all add: nextDifficulty_def policy)
  have same: "4.5 < score \<and> score < 8.0 \<longrightarrow> nextDifficulty current score None = current"
    by (simp add: nextDifficulty_def policy)
  have clamp: "nextDifficulty current score (Some cap) =
        (if levelIndex cap < levelIndex (nextDifficulty current score None) then cap
         else nextDifficulty current score None)"
    by (simp add: nextDifficulty_def Let_def)
  have bound: "levelIndex (nextDifficulty current score (Some cap)) \<le> levelIndex cap"
    by (rule nextDifficulty_capped)
  have sub: "submitAnswer ai now a t s = Inr r \<longrightarrow>
        difficultyCeiling (finalState r) = difficultyCeiling s
        \<and> currentDifficulty (finalState r) =
            nextDifficulty (currentDifficulty s)
              (finalScore (evaluation (last (turns (finalState r))))) (difficultyCeiling s)"
  proof
    assume "submitAnswer ai now a t s = Inr r"
    then obtain q raw tP gP final nd
      where nd: "nd = nextDifficulty (currentDifficulty s) final (difficultyCeiling s)"
        and tn: "turns (finalState r) =
           turns s @ [makeTurn q a raw (calculateScore raw) t tP final gP
                        (currentDifficulty s) nd now]"
        and cd: "currentDifficulty (finalState r) = nd"
        and dc: "difficultyCeiling (finalState r) = difficultyCeiling s"
      by (rule submitAnswer_fields)
    have "finalScore (evaluation (last (turns (finalState r)))) = final"
      by (simp add: tn makeTurn_def)
    with nd cd dc show "difficultyCeiling (finalState r) = difficultyCeiling s
        \<and> currentDifficulty (finalState r) =
            nextDifficulty (currentDifficulty s)
              (finalScore (evaluation (last (turns (finalState r))))) (difficultyCeiling s)"
      by simp
  qed
  have reach: "\<forall>x\<in>set (visibleStates ops). \<forall>c.
        difficultyCeiling x = Some c \<longrightarrow> levelIndex (currentDifficulty x) \<le> levelIndex c"
    using visible_underCeiling [of ops] unfolding underCeiling_def by auto
  from pc up down same clamp bound sub reach show ?thesis by blast
qed

theorem difficulty_transition_witness:
  "difficultyCeiling (fst (run cappedSession getInitialState)) = Some Medium
   \<and> finalScore (evaluation (last (turns (fst (run cappedSession getInitialState))))) = 9
   \<and> levelIndex (currentDifficulty (fst (run cappedSession getInitialState))) \<le> levelIndex Medium
   \<and> levelIndex (nextDifficulty Medium 9 None) = 2"
proof -
  have m: "fst (run cappedSession getInitialState) \<in> set (visibleStates cappedSession)"
    by (simp add: visibleStates_def)
  have s: "(8.0::real) \<le> 9" by simp
  from difficulty_transition [of 9 Medium _ _ _ _ _ _ _ cappedSession] m cappedSession_state(1)
  have a: "levelIndex (currentDifficulty (fst (run cappedSession getInitialState))) \<le> levelIndex Medium"
    by blast
  from difficulty_transition [of 9 Medium] s
  have "levelIndex (nextDifficulty Medium 9 None) = min 2 (levelIndex Medium + 1)"
    by blast
  then have b: "levelIndex (nextDifficulty Medium 9 None) = 2" by simp
  from a b cappedSession_state show ?thesis by blast
qed

text \<open>
  Claim C6. For an answer that is empty or only white space, and for an answer of more
  than 5 characters given in under 2000 ms, a completed \<^verbatim>\<open>submitAnswer\<close> calls no
  evaluator and gives the same result whatever the evaluator is; the four criteria of the
  recorded turn are 0, the turn is flagged as a fallback, and the final score is 0 whatever
  the time taken and the target skill. For any other answer the evaluator is called once,
  with the active question and the answer.
\<close>

theorem prefilter_short_circuits:
  assumes "submitAnswer ai now a t s = Inr r"
  shows "MIN_ANSWER_TIME_MS = 2000
   \<and> ((\<forall>c\<in>set a. isWhiteSpace c) \<or> (5 < length a \<and> t * 1000 < 2000) \<longrightarrow>
        evaluatorCalls r = []
        \<and> submitAnswer other now a t s = Inr r
        \<and> accuracy (evaluation (last (turns (finalState r)))) = 0
        \<and> clarity (evaluation (last (turns (finalState r)))) = 0
        \<and> depth (evaluation (last (turns (finalState r)))) = 0
        \<and> relevance (evaluation (last (turns (finalState r)))) = 0
        \<and> isFallback (evaluation (last (turns (finalState r))))
        \<and> finalScore (evaluation (last (turns (finalState r)))) = 0
        \<and> last (scoreHistory (finalState r)) = 0)
   \<and> (\<not> ((\<forall>c\<in>set a. isWhiteSpace c) \<or> (5 < length a \<and> t * 1000 < 2000)) \<longrightarrow>
        (\<exists>q. activeQuestion s = Some q \<and> evaluatorCalls r = [(q, a)]))"
proof -
  have c: "MIN_ANSWER_TIME_MS = 2000" by (simp add: policy)
  have y: "(\<forall>c\<in>set a. isWhiteSpace c) \<or> (5 < length a \<and> t * 1000 < 2000) \<longrightarrow>
        evaluatorCalls r = []
        \<and> submitAnswer other now a t s = Inr r
        \<and> accuracy (evaluation (last (turns (finalState r)))) = 0
        \<and> clarity (evaluation (last (turns (finalState r)))) = 0
        \<and> depth (evaluation (last (turns (finalState r)))) = 0
        \<and> relevance (evaluation (last (turns (finalState r)))) = 0
        \<and> isFallback (evaluation (last (turns (finalState r))))
        \<and> finalScore (evaluation (last (turns (finalState r)))) = 0
        \<and> last (scoreHistory (finalState r)) = 0"
  proof
    assume filt: "(\<forall>c\<in>set a. isWhiteSpace c) \<or> (5 < length a \<and> t * 1000 < 2000)"
    have "submitAnswer other now a t s = Inr r"
      using submitAnswer_prefiltered [OF filt, of other now s ai] assms by simp
    with submitAnswer_prefilter_effect [OF assms filt]
    show "evaluatorCalls r = []
        \<and> submitAnswer other now a t s = Inr r
        \<and> accuracy (evaluation (last (turns (finalState r)))) = 0
        \<and> clarity (evaluation (last (turns (finalState r)))) = 0
        \<and> depth (evaluation (last (turns (finalState r)))) = 0
        \<and> relevance (evaluation (last (turns (finalState r)))) = 0
        \<and> isFallback (evaluation (last (turns (finalState r))))
        \<and> finalScore (evaluation (last (turns (finalState r)))) = 0
        \<and> last (scoreHistory (finalState r)) = 0"
      by blast
  qed
  have n: "\<not> ((\<forall>c\<in>set a. isWhiteSpace c) \<or> (5 < length a \<and> t * 1000 < 2000)) \<longrightarrow>
        (\<exists>q. activeQuestion s = Some q \<and> evaluatorCalls r = [(q, a)])"
  proof
    assume nf: "\<not> ((\<forall>c\<in>set a. isWhiteSpace c) \<or> (5 < length a \<and> t * 1000 < 2000))"
    from assms obtain q pre
      where q: "activeQuestion s = Some q"
        and pre: "pre = fst (preEvaluation a t s)"
        and calls: "evaluatorCalls r = fst (snd (apiEvaluation ai q a pre s))"
      by (rule submitAnswer_fields)
    have "pre = None" unfolding pre using nf by (rule prefilter_passes)
    then have "evaluatorCalls r = [(q, a)]" by (simp add: calls apiEvaluation_None)
    with q show "\<exists>q. activeQuestion s = Some q \<and> evaluatorCalls r = [(q, a)]" by blast
  qed
  from c y n show ?thesis by blast
qed

theorem prefilter_short_circuits_witness:
  "(\<exists>r. submitAnswer strongService 1 blankAnswer 30 sessionAtQuestion = Inr r
        \<and> evaluatorCalls r = []
        \<and> finalScore (evaluation (last (turns (finalState r)))) = 0)
   \<and> (\<exists>r. submitAnswer strongService 1 plainAnswer 1 sessionAtQuestion = Inr r
        \<and> evaluatorCalls r = []
        \<and> finalScore (evaluation (last (turns (finalState r)))) = 0)
   \<and> (\<exists>r. submitAnswer strongService 1 plainAnswer 30 sessionAtQuestion = Inr r
        \<and> evaluatorCalls r = [(sampleQuestion, plainAnswer)])"
proof -
  obtain r1 where r1: "submitAnswer strongService 1 blankAnswer 30 sessionAtQuestion = Inr r1"
    using submitAnswer_succeeds [OF sessionAtQuestion_fields(1,2)] by blast
  obtain r2 where r2: "submitAnswer strongService 1 plainAnswer 1 sessionAtQuestion = Inr r2"
    using submitAnswer_succeeds [OF sessionAtQuestion_fields(1,2)] by blast
  obtain r3 where r3: "submitAnswer strongService 1 plainAnswer 30 sessionAtQuestion = Inr r3"
    using submitAnswer_succeeds [OF sessionAtQuestion_fields(1,2)] by blast
  have f1: "(\<forall>c\<in>set blankAnswer. isWhiteSpace c) \<or> (5 < length blankAnswer \<and> (30::real) * 1000 < 2000)"
    using blankAnswer_blank by blast
  have f2: "(\<forall>c\<in>set plainAnswer. isWhiteSpace c) \<or> (5 < length plainAnswer \<and> (1::real) * 1000 < 2000)"
    using plainAnswer_long by simp
  have f3: "\<not> ((\<forall>c\<in>set plainAnswer. isWhiteSpace c) \<or> (5 < length plainAnswer \<and> (30::real) * 1000 < 2000))"
    using plainAnswer_not_blank by simp
  from prefilter_short_circuits [OF r1] f1
  have a: "evaluatorCalls r1 = [] \<and> finalScore (evaluation (last (turns (finalState r1)))) = 0"
    by blast
  from prefilter_short_circuits [OF r2] f2
  have b: "evaluatorCalls r2 = [] \<and> finalScore (evaluation (last (turns (finalState r2)))) = 0"
    by blast
  from prefilter_short_circuits [OF r3] f3
  have "\<exists>q. activeQuestion sessionAtQuestion = Some q \<and> evaluatorCalls r3 = [(q, plainAnswer)]"
    by blast
  then have c: "evaluatorCalls r3 = [(sampleQuestion, plainAnswer)]"
    by (auto simp: sessionAtQuestion_fields)
  from r1 r2 r3 a b c show ?thesis by blast
qed

text \<open>
  Claim C7, as amended. The criteria are finite numbers. The weights are 0.40, 0.30, 0.15
  and 0.15 and sum to 1, in exact arithmetic and in doubles. The base score is the
  weighted sum computed in doubles (each product and each sum rounded to the nearest
  double), printed to two decimals and read back: the double nearest to a multiple of
  0.01. For criteria between 0 and 10 it lies within \<open>0.005 + 10\<^sup>-\<^sup>1\<^sup>2\<close> of the exact weighted
  sum, and it is the exact weighted sum rounded to two decimals whenever that sum is not
  within \<open>10\<^sup>-\<^sup>1\<^sup>2\<close> of the midpoint of two multiples of 0.01; the criteria (10, 10, 10, 10)
  give exactly 10.0. The final score recorded by \<^verbatim>\<open>submitAnswer\<close> is the base score less
  the time penalty less the skill-gap penalty, each difference rounded to a double
  (within \<open>2\<^sup>-\<^sup>4\<^sup>6\<close> of the exact difference for magnitudes up to 31), raised to 0 where that
  is negative and otherwise left as it is, with no upper clamp.
\<close>

theorem score_composition:
  "ACCURACY_weight = 0.40 \<and> DEPTH_weight = 0.30 \<and> CLARITY_weight = 0.15 \<and> RELEVANCE_weight = 0.15
   \<and> ACCURACY_weight + DEPTH_weight + CLARITY_weight + RELEVANCE_weight = 1
   \<and> plus64 (plus64 (plus64 (double ACCURACY_weight) (double DEPTH_weight))
                       (double CLARITY_weight)) (double RELEVANCE_weight) = 1
   \<and> calculateScore c = double (toFixed 2 (weightedSum64 c))
   \<and> (\<exists>k::int. calculateScore c = double (of_int k / 100))
   \<and> (0 \<le> accuracy c \<and> accuracy c \<le> 10 \<and> 0 \<le> depth c \<and> depth c \<le> 10
        \<and> 0 \<le> clarity c \<and> clarity c \<le> 10 \<and> 0 \<le> relevance c \<and> relevance c \<le> 10 \<longrightarrow>
        \<bar>calculateScore c - weightedSum c\<bar> \<le> 1 / 200 + 1 / 10 ^ 12
        \<and> (1 / 10 ^ 10 \<le> frac (weightedSum c * 100 + 1 / 2)
             \<and> frac (weightedSum c * 100 + 1 / 2) \<le> 1 - 1 / 10 ^ 10 \<longrightarrow>
             calculateScore c = double (roundedWeightedSum c)))
   \<and> calculateScore \<lparr>accuracy = 10, clarity = 10, depth = 10, relevance = 10\<rparr> = 10.0
   \<and> (submitAnswer ai now a t s = Inr r \<longrightarrow>
        totalScore (evaluation (last (turns (finalState r))))
          = calculateScore (evaluation (last (turns (finalState r))))
        \<and> finalScore (evaluation (last (turns (finalState r))))
          = max 0 (minus64 (minus64 (totalScore (evaluation (last (turns (finalState r)))))
                                    (timePenalty (evaluation (last (turns (finalState r))))))
                           (skillGapPenalty (evaluation (last (turns (finalState r))))))
        \<and> (0 \<le> minus64 (minus64 (totalScore (evaluation (last (turns (finalState r)))))
                                 (timePenalty (evaluation (last (turns (finalState r))))))
                        (skillGapPenalty (evaluation (last (turns (finalState r)))))
             \<longrightarrow> finalScore (evaluation (last (turns (finalState r))))
                 = minus64 (minus64 (totalScore (evaluation (last (turns (finalState r)))))
                                    (timePenalty (evaluation (last (turns (finalState r))))))
                           (skillGapPenalty (evaluation (last (turns (finalState r))))))
        \<and> (\<bar>totalScore (evaluation (last (turns (finalState r))))
               - timePenalty (evaluation (last (turns (finalState r))))\<bar> \<le> 31
             \<and> \<bar>totalScore (evaluation (last (turns (finalState r))))
               - timePenalty (evaluation (last (turns (finalState r))))
               - skillGapPenalty (evaluation (last (turns (finalState r))))\<bar> \<le> 31
             \<longrightarrow> \<bar>finalScore (evaluation (last (turns (finalState r))))
                  - max 0 (totalScore (evaluation (last (turns (finalState r))))
                           - timePenalty (evaluation (last (turns (finalState r))))
                           - skillGapPenalty (evaluation (last (turns (finalState r)))))\<bar>
                 \<le> 2 / 2 ^ 47)
        \<and> last (scoreHistory (finalState r)) = finalScore (evaluation (last (turns (finalState r)))))"
proof -
  have w: "ACCURACY_weight = 0.40 \<and> DEPTH_weight = 0.30 \<and> CLARITY_weight = 0.15 \<and> RELEVANCE_weight = 0.15
   \<and> ACCURACY_weight + DEPTH_weight + CLARITY_weight + RELEVANCE_weight = 1"
    by (simp add: policy)
  have w64: "plus64 (plus64 (plus64 (double ACCURACY_weight) (double DEPTH_weight))
                       (double CLARITY_weight)) (double RELEVANCE_weight) = 1"
    by code_simp
  have d: "calculateScore c = double (toFixed 2 (weightedSum64 c))"
    by (rule calculateScore_weightedSum64)
  have k: "\<exists>k::int. calculateScore c = double (of_int k / 100)"
    by (rule calculateScore_grid)
  have n: "0 \<le> accuracy c \<and> accuracy c \<le> 10 \<and> 0 \<le> depth c \<and> depth c \<le> 10
        \<and> 0 \<le> clarity c \<and> clarity c \<le> 10 \<and> 0 \<le> relevance c \<and> relevance c \<le> 10 \<longrightarrow>
        \<bar>calculateScore c - weightedSum c\<bar> \<le> 1 / 200 + 1 / 10 ^ 12
        \<and> (1 / 10 ^ 10 \<le> frac (weightedSum c * 100 + 1 / 2)
             \<and> frac (weightedSum c * 100 + 1 / 2) \<le> 1 - 1 / 10 ^ 10 \<longrightarrow>
             calculateScore c = double (roundedWeightedSum c))"
    using calculateScore_near [of c] calculateScore_exact [of c] by blast
  have ten: "calculateScore \<lparr>accuracy = 10, clarity = 10, depth = 10, relevance = 10\<rparr> = 10.0"
    by code_simp
  have sub: "submitAnswer ai now a t s = Inr r \<longrightarrow>
        totalScore (evaluation (last (turns (finalState r))))
          = calculateScore (evaluation (last (turns (finalState r))))
        \<and> finalScore (evaluation (last (turns (finalState r))))
          = max 0 (minus64 (minus64 (totalScore (evaluation (last (turns (finalState r)))))
                                    (timePenalty (evaluation (last (turns (finalState r))))))
                           (skillGapPenalty (evaluation (last (turns (finalState r))))))
        \<and> (0 \<le> minus64 (minus64 (totalScore (evaluation (last (turns (finalState r)))))
                                 (timePenalty (evaluation (last (turns (finalState r))))))
                        (skillGapPenalty (evaluation (last (turns (finalState r)))))
             \<longrightarrow> finalScore (evaluation (last (turns (finalState r))))
                 = minus64 (minus64 (totalScore (evaluation (last (turns (finalState r)))))
                                    (timePenalty (evaluation (last (turns (finalState r))))))
                           (skillGapPenalty (evaluation (last (turns (finalState r))))))
        \<and> (\<bar>totalScore (evaluation (last (turns (finalState r))))
               - timePenalty (evaluation (last (turns (finalState r))))\<bar> \<le> 31
             \<and> \<bar>totalScore (evaluation (last (turns (finalState r))))
               - timePenalty (evaluation (last (turns (finalState r))))
               - skillGapPenalty (evaluation (last (turns (finalState r))))\<bar> \<le> 31
             \<longrightarrow> \<bar>finalScore (evaluation (last (turns (finalState r))))
                  - max 0 (totalScore (evaluation (last (turns (finalState r))))
                           - timePenalty (evaluation (last (turns (finalState r))))
                           - skillGapPenalty (evaluation (last (turns (finalState r)))))\<bar>
                 \<le> 2 / 2 ^ 47)
        \<and> last (scoreHistory (finalState r)) = finalScore (evaluation (last (turns (finalState r))))"
  proof
    assume "submitAnswer ai now a t s = Inr r"
    then obtain q raw tP gP final nd
      where final: "final = max 0 (minus64 (minus64 (calculateScore raw) tP) gP)"
        and tn: "turns (finalState r) =
           turns s @ [makeTurn q a raw (calculateScore raw) t tP final gP
                        (currentDifficulty s) nd now]"
        and sh: "scoreHistory (finalState r) = scoreHistory s @ [final]"
      by (rule submitAnswer_fields)
    define e where "e = evaluation (last (turns (finalState r)))"
    have e: "totalScore e = calculateScore raw" "timePenalty e = tP" "skillGapPenalty e = gP"
      "finalScore e = final" "calculateScore e = calculateScore raw"
      by (simp_all add: e_def tn makeTurn_def calculateScore_def)
    have near: "\<bar>totalScore e - timePenalty e\<bar> \<le> 31
             \<and> \<bar>totalScore e - timePenalty e - skillGapPenalty e\<bar> \<le> 31
             \<longrightarrow> \<bar>finalScore e - max 0 (totalScore e - timePenalty e - skillGapPenalty e)\<bar>
                 \<le> 2 / 2 ^ 47"
      unfolding e final using final_near [of "calculateScore raw" tP gP] by blast
    have "totalScore e = calculateScore e
        \<and> finalScore e = max 0 (minus64 (minus64 (totalScore e) (timePenalty e)) (skillGapPenalty e))
        \<and> (0 \<le> minus64 (minus64 (totalScore e) (timePenalty e)) (skillGapPenalty e)
             \<longrightarrow> finalScore e = minus64 (minus64 (totalScore e) (timePenalty e)) (skillGapPenalty e))
        \<and> last (scoreHistory (finalState r)) = finalScore e"
      by (simp add: e final sh)
    with near show "totalScore (evaluation (last (turns (finalState r))))
          = calculateScore (evaluation (last (turns (finalState r))))
        \<and> finalScore (evaluation (last (turns (finalState r))))
          = max 0 (minus64 (minus64 (totalScore (evaluation (last (turns (finalState r)))))
                                    (timePenalty (evaluation (last (turns (finalState r))))))
                           (skillGapPenalty (evaluation (last (turns (finalState r))))))
        \<and> (0 \<le> minus64 (minus64 (totalScore (evaluation (last (turns (finalState r)))))
                                 (timePenalty (evaluation (last (turns (finalState r))))))
                        (skillGapPenalty (evaluation (last (turns (finalState r)))))
             \<longrightarrow> finalScore (evaluation (last (turns (finalState r))))
                 = minus64 (minus64 (totalScore (evaluation (last (turns (finalState r)))))
                                    (timePenalty (evaluation (last (turns (finalState r))))))
                           (skillGapPenalty (evaluation (last (turns (finalState r))))))
        \<and> (\<bar>totalScore (evaluation (last (turns (finalState r))))
               - timePenalty (evaluation (last (turns (finalState r))))\<bar> \<le> 31
             \<and> \<bar>totalScore (evaluation (last (turns (finalState r))))
               - timePenalty (evaluation (last (turns (finalState r))))
               - skillGapPenalty (evaluation (last (turns (finalState r))))\<bar> \<le> 31
             \<longrightarrow> \<bar>finalScore (evaluation (last (turns (finalState r))))
                  - max 0 (totalScore (evaluation (last (turns (finalState r))))
                           - timePenalty (evaluation (last (turns (finalState r))))
                           - skillGapPenalty (evaluation (last (turns (finalState r)))))\<bar>
                 \<le> 2 / 2 ^ 47)
        \<and> last (scoreHistory (finalState r)) = finalScore (evaluation (last (turns (finalState r))))"
      unfolding e_def by blast
  qed
  from w w64 d k n ten sub show ?thesis by blast
qed

theorem score_composition_witness:
  "\<exists>r. submitAnswer generousService 1 plainAnswer 30 sessionAtQuestion = Inr r
     \<and> totalScore (evaluation (last (turns (finalState r)))) = 12
     \<and> timePenalty (evaluation (last (turns (finalState r)))) = 0
     \<and> skillGapPenalty (evaluation (last (turns (finalState r)))) = 0
     \<and> finalScore (evaluation (last (turns (finalState r)))) = 12
     \<and> calculateScore \<lparr>accuracy = 7, clarity = 8, depth = 6, relevance = 9\<rparr> = double 7.15
     \<and> \<bar>calculateScore \<lparr>accuracy = 8, clarity = 7.5, depth = 8, relevance = 8\<rparr> - 7.925\<bar>
          \<le> 1 / 200 + 1 / 10 ^ 12"
proof -
  define r where "r = projr (submitAnswer generousService 1 plainAnswer 30 sessionAtQuestion)"
  define c1 :: EvaluationCriteria
    where "c1 = \<lparr>accuracy = 7, clarity = 8, depth = 6, relevance = 9\<rparr>"
  define c2 :: EvaluationCriteria
    where "c2 = \<lparr>accuracy = 8, clarity = 7.5, depth = 8, relevance = 8\<rparr>"
  have sub: "submitAnswer generousService 1 plainAnswer 30 sessionAtQuestion = Inr r"
    unfolding r_def
    by (rule projr_Inr [OF submitAnswer_succeeds [OF sessionAtQuestion_fields(1,2)]])
  have "(let x = evaluation (last (turns (finalState r)))
         in totalScore x = 12 \<and> timePenalty x = 0 \<and> skillGapPenalty x = 0)"
    unfolding r_def by code_simp
  then have e: "totalScore (evaluation (last (turns (finalState r)))) = 12"
    "timePenalty (evaluation (last (turns (finalState r)))) = 0"
    "skillGapPenalty (evaluation (last (turns (finalState r)))) = 0"
    unfolding Let_def by blast+
  have m: "max 0 (minus64 (minus64 12 0) 0) = (12::real)"
    by code_simp
  from score_composition [of c1 generousService 1 plainAnswer 30 sessionAtQuestion r] sub
  have "finalScore (evaluation (last (turns (finalState r))))
          = max 0 (minus64 (minus64 (totalScore (evaluation (last (turns (finalState r)))))
                                    (timePenalty (evaluation (last (turns (finalState r))))))
                           (skillGapPenalty (evaluation (last (turns (finalState r))))))"
    by blast
  then have f: "finalScore (evaluation (last (turns (finalState r)))) = 12"
    by (simp only: e m)
  have r1: "0 \<le> accuracy c1 \<and> accuracy c1 \<le> 10 \<and> 0 \<le> depth c1 \<and> depth c1 \<le> 10
        \<and> 0 \<le> clarity c1 \<and> clarity c1 \<le> 10 \<and> 0 \<le> relevance c1 \<and> relevance c1 \<le> 10"
    by (simp add: c1_def)
  have "frac (weightedSum c1 * 100 + 1 / 2) = 1 / 2"
    unfolding c1_def by code_simp
  then have fr: "1 / 10 ^ 10 \<le> frac (weightedSum c1 * 100 + 1 / 2)
      \<and> frac (weightedSum c1 * 100 + 1 / 2) \<le> 1 - 1 / 10 ^ 10"
    by simp
  have rw: "roundedWeightedSum c1 = 7.15"
    unfolding c1_def by code_simp
  from score_composition [of c1 generousService 1 plainAnswer 30 sessionAtQuestion r] r1 fr
  have "calculateScore c1 = double (roundedWeightedSum c1)"
    by blast
  then have s1: "calculateScore c1 = double 7.15"
    by (simp only: rw)
  have r2: "0 \<le> accuracy c2 \<and> accuracy c2 \<le> 10 \<and> 0 \<le> depth c2 \<and> depth c2 \<le> 10
        \<and> 0 \<le> clarity c2 \<and> clarity c2 \<le> 10 \<and> 0 \<le> relevance c2 \<and> relevance c2 \<le> 10"
    by (simp add: c2_def)
  have ws: "weightedSum c2 = 7.925"
    by (simp add: c2_def weightedSum_def)
  from score_composition [of c2 generousService 1 plainAnswer 30 sessionAtQuestion r] r2
  have "\<bar>calculateScore c2 - weightedSum c2\<bar> \<le> 1 / 200 + 1 / 10 ^ 12"
    by blast
  then have s2: "\<bar>calculateScore c2 - 7.925\<bar> \<le> 1 / 200 + 1 / 10 ^ 12"
    by (simp only: ws)
  from sub e f s1 s2 show ?thesis
    unfolding c1_def c2_def by blast
qed

text \<open>
  With the weighted sum taken exactly and rounded to two decimals, C7 fails where that
  sum is at or just above the midpoint of two multiples of 0.01: the sum in doubles lies
  below the midpoint and is printed as the lower multiple. The criteria (0, 0.5, 0, 0), clarity being 0.5, weigh 0.075 and score 0.07, not 0.08; the
  criteria (8, 7.5, 8, 8) weigh 7.925 and score 7.92, not 7.93; and with clarity
  7.500000000000001 the weighted sum is above 7.925 and the score, still 7.92, is more than
  0.005 below it.
\<close>

theorem score_below_rounded_sum:
  "calculateScore \<lparr>accuracy = 0, clarity = 0.5, depth = 0, relevance = 0\<rparr> = double 0.07
   \<and> weightedSum \<lparr>accuracy = 0, clarity = 0.5, depth = 0, relevance = 0\<rparr> = 0.075
   \<and> roundedWeightedSum \<lparr>accuracy = 0, clarity = 0.5, depth = 0, relevance = 0\<rparr> = 0.08
   \<and> calculateScore \<lparr>accuracy = 8, clarity = 7.5, depth = 8, relevance = 8\<rparr> = double 7.92
   \<and> weightedSum \<lparr>accuracy = 8, clarity = 7.5, depth = 8, relevance = 8\<rparr> = 7.925
   \<and> roundedWeightedSum \<lparr>accuracy = 8, clarity = 7.5, depth = 8, relevance = 8\<rparr> = 7.93
   \<and> double 0.07 < 0.075 \<and> double 7.92 < 7.925
   \<and> calculateScore
        \<lparr>accuracy = 8, clarity = 7.500000000000001, depth = 8, relevance = 8\<rparr> = double 7.92
   \<and> 7.925 < weightedSum
        \<lparr>accuracy = 8, clarity = 7.500000000000001, depth = 8, relevance = 8\<rparr>
   \<and> 1 / 200 < weightedSum
        \<lparr>accuracy = 8, clarity = 7.500000000000001, depth = 8, relevance = 8\<rparr>
      - calculateScore
        \<lparr>accuracy = 8, clarity = 7.500000000000001, depth = 8, relevance = 8\<rparr>"
  using score_at_low_midpoint score_at_high_midpoint midpoints_exact
    score_above_midpoint [unfolded Let_def]
  by blast

text \<open>
  Claim C8. The accuracy reported by the fallback evaluator is its heuristic score,
  \<open>min 8.5 (4.0 + hits * 2.0 + bonus)\<close>, where \<open>hits\<close> counts the expected keywords
  whose lower-case form occurs in the lower-case answer and \<open>bonus\<close> is 1.0 for an answer
  of at least 50 characters; and each of the four criteria it reports is below 10.
\<close>

theorem fallback_heuristic:
  "BASE_SCORE = 4.0 \<and> KEYWORD_MATCH_VALUE = 2.0 \<and> LENGTH_THRESHOLD_CHARS = 50
   \<and> LENGTH_BONUS = 1.0 \<and> MAX_SCORE = 8.5
   \<and> accuracy (FallbackRegistry_evaluate q a) =
        min 8.5 (4.0
                 + real (length (filter (\<lambda>kw. \<exists>u v. toLowerCase a = u @ toLowerCase kw @ v)
                                        (expectedKeywords q))) * 2.0
                 + (if 50 \<le> length a then 1.0 else 0))
   \<and> accuracy (FallbackRegistry_evaluate q a) < 10
   \<and> clarity (FallbackRegistry_evaluate q a) < 10
   \<and> depth (FallbackRegistry_evaluate q a) < 10
   \<and> relevance (FallbackRegistry_evaluate q a) < 10
   \<and> isFallback (FallbackRegistry_evaluate q a)"
proof -
  define hits where
    "hits = length (filter (\<lambda>kw. \<exists>u v. toLowerCase a = u @ toLowerCase kw @ v) (expectedKeywords q))"
  have cnt: "fold (\<lambda>kw (hits, missing).
                    if includes_str (toLowerCase a) (toLowerCase kw) then (hits + 1, missing)
                    else (hits, missing @ [kw]))
                 (expectedKeywords q) (0::nat, [])
             = (hits, filter (\<lambda>kw. \<not> includes_str (toLowerCase a) (toLowerCase kw)) (expectedKeywords q))"
    by (simp add: fold_keywordHits hits_def includes_str_iff)
  have acc: "accuracy (FallbackRegistry_evaluate q a) =
        min 8.5 (4.0 + real hits * 2.0 + (if 50 \<le> length a then 1.0 else 0))"
    unfolding FallbackRegistry_evaluate_def Let_def cnt
    by (simp add: policy min_def)
  have rest: "clarity (FallbackRegistry_evaluate q a) < 10
   \<and> depth (FallbackRegistry_evaluate q a) < 10
   \<and> relevance (FallbackRegistry_evaluate q a) < 10
   \<and> isFallback (FallbackRegistry_evaluate q a)"
    unfolding FallbackRegistry_evaluate_def Let_def cnt
    by simp
  have lt: "accuracy (FallbackRegistry_evaluate q a) < 10"
    unfolding acc by simp
  have pc: "BASE_SCORE = 4.0 \<and> KEYWORD_MATCH_VALUE = 2.0 \<and> LENGTH_THRESHOLD_CHARS = 50
   \<and> LENGTH_BONUS = 1.0 \<and> MAX_SCORE = 8.5"
    by (simp add: policy)
  from pc acc lt rest show ?thesis unfolding hits_def by blast
qed

theorem fallback_heuristic_witness:
  "accuracy (FallbackRegistry_evaluate sampleQuestion mixedCaseAnswer) = 8"
proof -
  have cnt: "length (filter (\<lambda>kw. \<exists>u v. toLowerCase mixedCaseAnswer = u @ toLowerCase kw @ v)
                            (expectedKeywords sampleQuestion)) = 2"
    by (simp only: includes_str_iff [symmetric]) code_simp
  have len: "length mixedCaseAnswer = 26"
    by code_simp
  from fallback_heuristic [of sampleQuestion mixedCaseAnswer]
  have "accuracy (FallbackRegistry_evaluate sampleQuestion mixedCaseAnswer) =
        min 8.5 (4.0
                 + real (length (filter (\<lambda>kw. \<exists>u v. toLowerCase mixedCaseAnswer = u @ toLowerCase kw @ v)
                                        (expectedKeywords sampleQuestion))) * 2.0
                 + (if 50 \<le> length mixedCaseAnswer then 1.0 else 0))"
    by blast
  then show ?thesis
    unfolding cnt len by simp
qed

text \<open>
  Claim C9, as amended. A notification hands every subscriber the engine's own state
  object, the one \<^verbatim>\<open>getState\<close> returns. The engine's state is the same after the
  notification when no subscriber writes to that object, as the subscriber of the
  presentation layer does not: it ends with a copy equal to the engine's state. A
  subscriber that assigns the status of the object it is handed changes the status of
  the engine's state.
\<close>

theorem notify_delivers_live_state:
  "getState (notify rt) = getState rt
   \<and> ((\<forall>cb\<in>set (subscribers rt). \<forall>h. cb (getState rt) h (getState rt) = h (getState rt))
        \<longrightarrow> currentState (notify rt) = currentState rt)
   \<and> (subscribers rt = [handleStateUpdate ui] \<and> ui \<noteq> getState rt
        \<longrightarrow> currentState (notify rt) = currentState rt
            \<and> store (notify rt) ui = currentState rt)
   \<and> (subscribers rt = [overwriteStatus v] \<and> currentState rt = Some st
        \<longrightarrow> currentState (notify rt) = Some (st\<lparr>status := v\<rparr>))"
proof -
  have a: "getState (notify rt) = getState rt"
    by (simp add: getState_def notify_def)
  have b: "(\<forall>cb\<in>set (subscribers rt). \<forall>h. cb (getState rt) h (getState rt) = h (getState rt))
        \<longrightarrow> currentState (notify rt) = currentState rt"
    by (simp add: currentState_def getState_def notify_def fold_frame)
  have c: "subscribers rt = [handleStateUpdate ui] \<and> ui \<noteq> getState rt
        \<longrightarrow> currentState (notify rt) = currentState rt
            \<and> store (notify rt) ui = currentState rt"
    by (simp add: currentState_def getState_def notify_def handleStateUpdate_def)
  have d: "subscribers rt = [overwriteStatus v] \<and> currentState rt = Some st
        \<longrightarrow> currentState (notify rt) = Some (st\<lparr>status := v\<rparr>)"
    by (simp add: currentState_def getState_def notify_def overwriteStatus_def)
  from a b c d show ?thesis by blast
qed

theorem notify_delivers_live_state_witness:
  "currentState (notify (subscribe (handleStateUpdate 1) newEngine)) = Some getInitialState
   \<and> store (notify (subscribe (handleStateUpdate 1) newEngine)) 1 = Some getInitialState"
proof -
  have s: "subscribers (subscribe (handleStateUpdate 1) newEngine) = [handleStateUpdate 1]"
    by (simp add: subscribe_def newEngine_def)
  have n: "(1::nat) \<noteq> getState (subscribe (handleStateUpdate 1) newEngine)"
    by (simp add: getState_def subscribe_def newEngine_def)
  have c: "currentState (subscribe (handleStateUpdate 1) newEngine) = Some getInitialState"
    by (simp add: currentState_def getState_def subscribe_def newEngine_def)
  from notify_delivers_live_state [of "subscribe (handleStateUpdate 1) newEngine" 1] s n
  have "currentState (notify (subscribe (handleStateUpdate 1) newEngine))
          = currentState (subscribe (handleStateUpdate 1) newEngine)
        \<and> store (notify (subscribe (handleStateUpdate 1) newEngine)) 1
          = currentState (subscribe (handleStateUpdate 1) newEngine)"
    by blast
  then show ?thesis unfolding c .
qed

text \<open>
  The claim C9 itself fails: with a subscriber that writes to what it is handed, the
  engine's state after \<^verbatim>\<open>setGenerating\<close> carries the subscriber's status, and a
  notification alone changes the engine's state.
\<close>

theorem subscriber_write_reaches_engine:
  "map_option status (currentState (subscribe (overwriteStatus COMPLETED) newEngine)) = Some IDLE
   \<and> map_option status
        (currentState (setGenerating_inPlace (subscribe (overwriteStatus COMPLETED) newEngine)))
      = Some COMPLETED
   \<and> currentState (notify (subscribe (overwriteStatus COMPLETED) newEngine))
      \<noteq> currentState (subscribe (overwriteStatus COMPLETED) newEngine)"
  by (simp add: currentState_def getState_def subscribe_def newEngine_def notify_def
      setGenerating_inPlace_def overwriteStatus_def getInitialState_def)

text \<open>
  Claim C10. For an answer caught by the pre-filter (empty, only white space, or flagged
  as spam) and submitted after more than 60 seconds, a completed \<^verbatim>\<open>submitAnswer\<close> still
  counts one more time violation and records a positive time penalty, the criteria and
  the final score being 0; and with 2 violations counted before, the session ends as
  \<^verbatim>\<open>TERMINATED\<close> with the reason citing the violations.
\<close>

theorem prefiltered_answers_are_timed:
  assumes "submitAnswer ai now a t s = Inr r"
    and "(\<forall>c\<in>set a. isWhiteSpace c) \<or> (5 < length a \<and> t * 1000 < 2000)"
    and "60 < t"
  shows "timeViolations (finalState r) = timeViolations s + 1
   \<and> 0 < timePenalty (evaluation (last (turns (finalState r))))
   \<and> accuracy (evaluation (last (turns (finalState r)))) = 0
   \<and> clarity (evaluation (last (turns (finalState r)))) = 0
   \<and> depth (evaluation (last (turns (finalState r)))) = 0
   \<and> relevance (evaluation (last (turns (finalState r)))) = 0
   \<and> finalScore (evaluation (last (turns (finalState r)))) = 0
   \<and> (2 \<le> timeViolations s \<longrightarrow>
        status (finalState r) = TERMINATED
        \<and> terminationReason (finalState r) =
            Some (''Time Management Failure: '' @ showNat (timeViolations s + 1)
                  @ '' violations exceeded limit of 2.''))"
proof -
  from assms(1) obtain q raw tP gP final nd tv cwa
    where tP: "tP = fst (calculateTimeLogic t)"
      and tvd: "tv = timeViolations s + (if snd (calculateTimeLogic t) then 1 else 0)"
      and st: "status (finalState r) =
           (if tv > MAX_VIOLATIONS_ALLOWED then TERMINATED
            else if cwa \<ge> STRIKE_LIMIT then TERMINATED
            else if length (turns s) + 1 \<ge> MAX_QUESTIONS then COMPLETED
            else GENERATING)"
      and tr: "terminationReason (finalState r) =
           (if tv > MAX_VIOLATIONS_ALLOWED then Some (violationReason tv)
            else if cwa \<ge> STRIKE_LIMIT then Some (strikeReason cwa)
            else terminationReason s)"
      and tn: "turns (finalState r) =
           turns s @ [makeTurn q a raw (calculateScore raw) t tP final gP
                        (currentDifficulty s) nd now]"
      and tv: "timeViolations (finalState r) = tv"
    by (rule submitAnswer_fields)
  have tv1: "tv = timeViolations s + 1"
    using assms(3) by (simp add: tvd calculateTimeLogic_violation)
  have pen: "0 < timePenalty (evaluation (last (turns (finalState r))))"
    using calculateTimeLogic_over(2) [OF assms(3)] by (simp add: tn makeTurn_def tP)
  have ends: "2 \<le> timeViolations s \<longrightarrow>
        status (finalState r) = TERMINATED
        \<and> terminationReason (finalState r) =
            Some (''Time Management Failure: '' @ showNat (timeViolations s + 1)
                  @ '' violations exceeded limit of 2.'')"
    unfolding st tr tv1 by (simp add: policy violationReason_eq)
  from submitAnswer_prefilter_effect [OF assms(1,2)] pen ends tv tv1
  show ?thesis by simp
qed

theorem prefiltered_answers_are_timed_witness:
  "\<exists>r. submitAnswer noService 3 [] 61 (fst (run twoOverruns getInitialState)) = Inr r
     \<and> timeViolations (finalState r) = 3
     \<and> finalScore (evaluation (last (turns (finalState r)))) = 0
     \<and> status (finalState r) = TERMINATED
     \<and> terminationReason (finalState r) =
          Some ''Time Management Failure: 3 violations exceeded limit of 2.''"
proof -
  obtain r where r: "submitAnswer noService 3 [] 61 (fst (run twoOverruns getInitialState)) = Inr r"
    using submitAnswer_succeeds [OF twoOverruns_state(2,1)] by blast
  have f: "(\<forall>c\<in>set ([]::string). isWhiteSpace c) \<or> (5 < length ([]::string) \<and> (61::real) * 1000 < 2000)"
    by simp
  have l: "(60::real) < 61" by simp
  from prefiltered_answers_are_timed [OF r f l]
  have "timeViolations (finalState r) = 3
     \<and> finalScore (evaluation (last (turns (finalState r)))) = 0
     \<and> status (finalState r) = TERMINATED
     \<and> terminationReason (finalState r) =
          Some (''Time Management Failure: '' @ showNat 3 @ '' violations exceeded limit of 2.'')"
    by (simp add: twoOverruns_state(3))
  with r show ?thesis by (auto simp: showNat_3)
qed

end
